theory Spec2Isabelle
  imports Complex_Main
begin

section \<open>Floating-point values of the solvers\<close>

text \<open>
  The arrays of \<^verbatim>\<open>minimise.py\<close> hold IEEE doubles. The solvers rely on the special
  values: \<^verbatim>\<open>-np.inf\<close> marks the invalid grid positions in log-space, and
  \<^verbatim>\<open>np.isnan(delta)\<close> is the divergence test. A value is therefore a finite real, one
  of the two infinities, or NaN. Finite arithmetic is exact: rounding and the sign of zero
  are not part of this model, and neither is the overflow of a sum, product or quotient;
  the exponential, which produces every density, has its underflow and its overflow. The
  rules for the special values are those of IEEE 754 as numpy applies them (a division by
  zero gives an infinity or NaN, it does not raise).
\<close>

datatype fl = Fin real | PInf | NInf | NaN

fun isnan :: "fl \<Rightarrow> bool" where
  "isnan NaN = True"
| "isnan _ = False"

fun isfinite :: "fl \<Rightarrow> bool" where
  "isfinite (Fin _) = True"
| "isfinite _ = False"

fun fneg :: "fl \<Rightarrow> fl" where
  "fneg (Fin a) = Fin (- a)"
| "fneg PInf = NInf"
| "fneg NInf = PInf"
| "fneg NaN = NaN"

fun fadd :: "fl \<Rightarrow> fl \<Rightarrow> fl" where
  "fadd (Fin a) (Fin b) = Fin (a + b)"
| "fadd NaN _ = NaN"
| "fadd _ NaN = NaN"
| "fadd PInf NInf = NaN"
| "fadd NInf PInf = NaN"
| "fadd PInf _ = PInf"
| "fadd _ PInf = PInf"
| "fadd NInf _ = NInf"
| "fadd _ NInf = NInf"

definition fsub :: "fl \<Rightarrow> fl \<Rightarrow> fl" where
  "fsub a b = fadd a (fneg b)"

fun fmul :: "fl \<Rightarrow> fl \<Rightarrow> fl" where
  "fmul (Fin a) (Fin b) = Fin (a * b)"
| "fmul NaN _ = NaN"
| "fmul _ NaN = NaN"
| "fmul (Fin a) PInf = (if a = 0 then NaN else if 0 < a then PInf else NInf)"
| "fmul (Fin a) NInf = (if a = 0 then NaN else if 0 < a then NInf else PInf)"
| "fmul PInf (Fin b) = (if b = 0 then NaN else if 0 < b then PInf else NInf)"
| "fmul NInf (Fin b) = (if b = 0 then NaN else if 0 < b then NInf else PInf)"
| "fmul PInf PInf = PInf"
| "fmul PInf NInf = NInf"
| "fmul NInf PInf = NInf"
| "fmul NInf NInf = PInf"

fun fdiv :: "fl \<Rightarrow> fl \<Rightarrow> fl" where
  "fdiv (Fin a) (Fin b) =
     (if b = 0 then (if a = 0 then NaN else if 0 < a then PInf else NInf) else Fin (a / b))"
| "fdiv NaN _ = NaN"
| "fdiv _ NaN = NaN"
| "fdiv (Fin a) PInf = Fin 0"
| "fdiv (Fin a) NInf = Fin 0"
| "fdiv PInf (Fin b) = (if 0 \<le> b then PInf else NInf)"
| "fdiv NInf (Fin b) = (if 0 \<le> b then NInf else PInf)"
| "fdiv PInf PInf = NaN"
| "fdiv PInf NInf = NaN"
| "fdiv NInf PInf = NaN"
| "fdiv NInf NInf = NaN"

text \<open>
  \<^verbatim>\<open>np.exp\<close> leaves the doubles at both ends, and the densities are exponentials: it
  returns \<^verbatim>\<open>0.0\<close> when the exponential is at most \<open>2 ^ -1075\<close>, half the smallest positive
  double (an argument below about \<open>-745.13\<close>), and \<^verbatim>\<open>inf\<close> when it reaches \<open>2 ^ 1024\<close> (an
  argument above about \<open>709.78\<close>). Between the two cut-offs the exponential is exact.
\<close>

definition exp_underflow :: real where
  "exp_underflow = - (1075 * ln 2)"

definition exp_overflow :: real where
  "exp_overflow = 1024 * ln 2"

fun fexp :: "fl \<Rightarrow> fl" where
  "fexp (Fin a) =
     (if a \<le> exp_underflow then Fin 0 else if exp_overflow \<le> a then PInf else Fin (exp a))"
| "fexp PInf = PInf"
| "fexp NInf = Fin 0"
| "fexp NaN = NaN"

fun flog :: "fl \<Rightarrow> fl" where
  "flog (Fin a) = (if a < 0 then NaN else if a = 0 then NInf else Fin (ln a))"
| "flog PInf = PInf"
| "flog NInf = NaN"
| "flog NaN = NaN"

fun fabs :: "fl \<Rightarrow> fl" where
  "fabs (Fin a) = Fin \<bar>a\<bar>"
| "fabs PInf = PInf"
| "fabs NInf = PInf"
| "fabs NaN = NaN"

text \<open>The comparison \<^verbatim>\<open>a < b\<close>: false as soon as one side is NaN.\<close>

fun flt :: "fl \<Rightarrow> fl \<Rightarrow> bool" where
  "flt (Fin a) (Fin b) = (a < b)"
| "flt NaN _ = False"
| "flt _ NaN = False"
| "flt _ NInf = False"
| "flt PInf _ = False"
| "flt NInf _ = True"
| "flt _ PInf = True"

text \<open>\<^verbatim>\<open>a > b\<close> is \<^verbatim>\<open>b < a\<close>.\<close>

definition fgt :: "fl \<Rightarrow> fl \<Rightarrow> bool" where
  "fgt a b = flt b a"

text \<open>
  \<^verbatim>\<open>np.max\<close> propagates NaN: the maximum of an array that holds a NaN is NaN. Python's
  builtin \<^verbatim>\<open>max(a, b)\<close> keeps \<^verbatim>\<open>a\<close> unless \<^verbatim>\<open>b > a\<close>, so it returns its first
  argument when the second is NaN. \<^verbatim>\<open>np.max\<close> of an empty array raises \<^verbatim>\<open>ValueError\<close>:
  the solvers below return that error before they take \<open>np_max\<close> of an array that can be
  empty, and the value NaN of \<open>np_max []\<close> is never read.
\<close>

definition np_maximum :: "fl \<Rightarrow> fl \<Rightarrow> fl" where
  "np_maximum a b = (if isnan a then a else if isnan b then b else if flt a b then b else a)"

fun np_max :: "fl list \<Rightarrow> fl" where
  "np_max [] = NaN"
| "np_max (x # xs) = foldl np_maximum x xs"

definition py_max :: "fl \<Rightarrow> fl \<Rightarrow> fl" where
  "py_max a b = (if fgt b a then b else a)"

section \<open>Arrays\<close>

text \<open>
  A one-dimensional numpy array is a list. \<^verbatim>\<open>np.zeros_like(zbins)\<close> and
  \<^verbatim>\<open>np.ones_like(zbins)\<close> only take the length of the grid.
\<close>

datatype py_error = IndexError | ValueError | ZeroDivisionError | UnboundLocalError

definition zeros :: "nat \<Rightarrow> fl list" where
  "zeros n = replicate n (Fin 0)"

definition ones :: "nat \<Rightarrow> fl list" where
  "ones n = replicate n (Fin 1)"

text \<open>\<^verbatim>\<open>xs[mask]\<close>: the entries of \<open>xs\<close> where the mask is true, in order.\<close>

fun bool_index :: "'a list \<Rightarrow> bool list \<Rightarrow> 'a list" where
  "bool_index (x # xs) (b # bs) = (if b then x # bool_index xs bs else bool_index xs bs)"
| "bool_index _ _ = []"

text \<open>\<^verbatim>\<open>xs[mask] = vs\<close>: the values of \<open>vs\<close> go, in order, to the positions where the
  mask is true.\<close>

fun mask_assign :: "'a list \<Rightarrow> bool list \<Rightarrow> 'a list \<Rightarrow> 'a list" where
  "mask_assign (x # xs) (b # bs) vs =
     (if b then (case vs of [] \<Rightarrow> x # xs | v # vs' \<Rightarrow> v # mask_assign xs bs vs')
      else x # mask_assign xs bs vs)"
| "mask_assign xs _ _ = xs"

text \<open>\<^verbatim>\<open>xs[mask] = v\<close> for a scalar \<open>v\<close>.\<close>

fun mask_fill :: "'a list \<Rightarrow> bool list \<Rightarrow> 'a \<Rightarrow> 'a list" where
  "mask_fill (x # xs) (b # bs) v = (if b then v else x) # mask_fill xs bs v"
| "mask_fill xs _ _ = xs"

text \<open>Elementwise operations on arrays of one length, and a scalar times an array.\<close>

definition vadd :: "fl list \<Rightarrow> fl list \<Rightarrow> fl list" where
  "vadd xs ys = map2 fadd xs ys"

definition vsub :: "fl list \<Rightarrow> fl list \<Rightarrow> fl list" where
  "vsub xs ys = map2 fsub xs ys"

definition smul :: "fl \<Rightarrow> fl list \<Rightarrow> fl list" where
  "smul c xs = map (fmul c) xs"

definition muls :: "fl list \<Rightarrow> fl \<Rightarrow> fl list" where
  "muls xs c = map (\<lambda>x. fmul x c) xs"

text \<open>
  A binary operation on two arrays whose lengths may differ: numpy broadcasts an array of
  length one and raises \<^verbatim>\<open>ValueError\<close> on any other mismatch.
\<close>

definition np_bin :: "(fl \<Rightarrow> fl \<Rightarrow> fl) \<Rightarrow> fl list \<Rightarrow> fl list \<Rightarrow> py_error + fl list" where
  "np_bin f xs ys =
     (if length xs = length ys then Inr (map2 f xs ys)
      else if length xs = 1 then Inr (map (f (hd xs)) ys)
      else if length ys = 1 then Inr (map (\<lambda>x. f x (hd ys)) xs)
      else Inl ValueError)"

text \<open>\<^verbatim>\<open>np.sum\<close>, \<^verbatim>\<open>np.diff\<close> and \<^verbatim>\<open>np.trapz(y, x)\<close>, which computes
  \<^verbatim>\<open>(diff(x) * (y[1:] + y[:-1]) / 2.0).sum()\<close>.\<close>

definition np_sum :: "fl list \<Rightarrow> fl" where
  "np_sum xs = foldl fadd (Fin 0) xs"

definition np_diff :: "fl list \<Rightarrow> fl list" where
  "np_diff xs = map2 fsub (tl xs) (butlast xs)"

definition np_trapz :: "fl list \<Rightarrow> fl list \<Rightarrow> py_error + fl" where
  "np_trapz y x =
     (case np_bin fmul (np_diff x) (map2 fadd (tl y) (butlast y)) of
        Inl e \<Rightarrow> Inl e
      | Inr p \<Rightarrow> Inr (np_sum (map (\<lambda>v. fdiv v (Fin 2)) p)))"

section \<open>Relaxation schedules\<close>

text \<open>
  A schedule is a Python dict from iteration index to coefficient: its items, with distinct
  keys. The loops run \<^verbatim>\<open>if i in alpha_updates: alpha = alpha_updates[i]\<close> at the start of
  every iteration.
\<close>

type_synonym schedule = "(int \<times> fl) list"

definition schedule_update :: "schedule \<Rightarrow> int \<Rightarrow> fl \<Rightarrow> fl" where
  "schedule_update upd i a = (case map_of upd i of Some v \<Rightarrow> v | None \<Rightarrow> a)"

text \<open>The coefficient in force during iteration \<open>i\<close> of a loop over \<^verbatim>\<open>range(maxiter + 1)\<close>
  that started from \<open>a0\<close>.\<close>

fun alpha_trace :: "schedule \<Rightarrow> fl \<Rightarrow> nat \<Rightarrow> fl" where
  "alpha_trace upd a0 0 = schedule_update upd 0 a0"
| "alpha_trace upd a0 (Suc i) = schedule_update upd (int (Suc i)) (alpha_trace upd a0 i)"

text \<open>The lookup as the specification words it: the coefficient of the largest threshold
  that is at most the current index and has been reached, the initial coefficient when
  there is none. The index of a loop over \<^verbatim>\<open>range(maxiter + 1)\<close> runs through
  \<open>0, 1, ..., i\<close>: the thresholds reached at iteration \<open>i\<close> are the keys from 0 to \<open>i\<close>.\<close>

definition schedule_spec :: "schedule \<Rightarrow> fl \<Rightarrow> int \<Rightarrow> fl" where
  "schedule_spec upd a0 i =
     (let ks = filter (\<lambda>k. 0 \<le> k \<and> k \<le> i) (map fst upd)
      in if ks = [] then a0
         else (case map_of upd (Max (set ks)) of Some v \<Rightarrow> v | None \<Rightarrow> a0))"

definition alpha_updates_default_onetype :: schedule where
  "alpha_updates_default_onetype =
     [(10, Fin (1 / 10000)), (20, Fin (1 / 1000)), (50, Fin (1 / 1000)), (100, Fin (5 / 1000)),
      (300, Fin (5 / 1000)), (900, Fin (8 / 1000)), (2000, Fin (1 / 100)), (5000, Fin (1 / 10))]"

definition alpha_updates_default_onetype_LR :: schedule where
  "alpha_updates_default_onetype_LR =
     [(10, Fin (1 / 10000)), (20, Fin (5 / 10000)), (50, Fin (6 / 10000)),
      (100, Fin (8 / 10000)), (300, Fin (1 / 1000)), (900, Fin (2 / 1000)),
      (2000, Fin (5 / 1000)), (2500, Fin (7 / 1000)), (3000, Fin (1 / 100)),
      (3500, Fin (5 / 100)), (4000, Fin (1 / 10))]"

definition alpha_updates_default_twotype :: schedule where
  "alpha_updates_default_twotype =
     [(10, Fin (1 / 1000000)), (20, Fin (1 / 100000)), (50, Fin (2 / 100000)),
      (100, Fin (4 / 100000)), (200, Fin (6 / 100000)), (400, Fin (1 / 10000)),
      (1000, Fin (2 / 10000)), (1200, Fin (4 / 10000)), (1400, Fin (5 / 10000)),
      (1700, Fin (6 / 10000)), (1800, Fin (7 / 10000)), (1900, Fin (8 / 10000)),
      (2100, Fin (9 / 10000)), (2200, Fin (10 / 10000)), (2300, Fin (11 / 10000)),
      (2400, Fin (12 / 10000)), (2600, Fin (13 / 10000)), (2800, Fin (14 / 10000)),
      (3000, Fin (15 / 10000)), (3200, Fin (16 / 10000)), (3400, Fin (18 / 10000)),
      (3600, Fin (20 / 10000)), (3800, Fin (21 / 10000)), (4000, Fin (23 / 10000)),
      (4200, Fin (25 / 10000)), (4400, Fin (26 / 10000)), (4600, Fin (28 / 10000)),
      (4800, Fin (30 / 10000)), (5000, Fin (32 / 10000)), (5200, Fin (35 / 10000)),
      (5400, Fin (36 / 10000)), (5500, Fin (40 / 10000)), (5800, Fin (50 / 10000)),
      (6000, Fin (60 / 10000)), (6200, Fin (8 / 1000)), (6400, Fin (15 / 1000)),
      (7000, Fin (2 / 100)), (8000, Fin (3 / 100)), (9000, Fin (7 / 100)),
      (10000, Fin (8 / 100))]"

definition alpha_restr_updates_default :: schedule where
  "alpha_restr_updates_default =
     [(1100, Fin (15 / 1000)), (1200, Fin (2 / 100)), (1500, Fin (5 / 100)),
      (1800, Fin (8 / 100)), (2000, Fin (10 / 100)), (2200, Fin (15 / 100))]"

section \<open>The loop of a solver\<close>

text \<open>
  One pass through the body of \<^verbatim>\<open>for i in range(maxiter + 1)\<close> either raises, returns
  from the function, or goes on with a new state. \<open>for_range body n i s\<close> runs the body for
  the \<open>n\<close> indices from \<open>i\<close> on.
\<close>

datatype ('s, 'r) control = Next 's | Return 'r

fun for_range ::
  "(int \<Rightarrow> 's \<Rightarrow> py_error + ('s, 'r) control) \<Rightarrow> nat \<Rightarrow> int \<Rightarrow> 's \<Rightarrow> py_error + ('s, 'r) control"
where
  "for_range body 0 i s = Inr (Next s)"
| "for_range body (Suc n) i s =
     (case body i s of
        Inl e \<Rightarrow> Inl e
      | Inr (Return r) \<Rightarrow> Inr (Return r)
      | Inr (Next s') \<Rightarrow> for_range body n (i + 1) s')"

section \<open>The density update shared by the solvers\<close>

text \<open>
  Every solver updates the density of each species with the same five statements (lines
  142 to 146, 238 to 247 and 371 to 380): the target log-density is written through the
  validity mask into the buffer \<^verbatim>\<open>log_rho_new\<close>, exponentiated, and mixed with the current
  log-density. The result is the buffer, the target density, the mixed log-density and the
  mixed density.
\<close>

definition validity :: "fl list \<Rightarrow> bool list" where
  "validity muloc = map isfinite muloc"

definition picard_update ::
  "bool list \<Rightarrow> fl list \<Rightarrow> fl list \<Rightarrow> fl list \<Rightarrow> fl \<Rightarrow> fl list
     \<Rightarrow> fl list \<times> fl list \<times> fl list \<times> fl list"
where
  "picard_update valid muloc c1 buf alpha log_rho =
     (let log_rho_new =
            mask_fill
              (mask_assign buf valid (vadd (bool_index muloc valid) (bool_index c1 valid)))
              (map Not valid) NInf;
          rho_new = map fexp log_rho_new;
          log_rho' = vadd (smul (fsub (Fin 1) alpha) log_rho) (smul alpha log_rho_new);
          rho' = map fexp log_rho'
      in (log_rho_new, rho_new, log_rho', rho'))"

text \<open>The initial log-density (lines 115 to 118): \<^verbatim>\<open>np.log(initial_guess)\<close> at the valid
  positions, \<^verbatim>\<open>-np.inf\<close> at the others.\<close>

definition initial_log_rho :: "nat \<Rightarrow> bool list \<Rightarrow> fl \<Rightarrow> fl list" where
  "initial_log_rho n valid guess =
     mask_fill (mask_fill (zeros n) valid (flog guess)) (map Not valid) NInf"

text \<open>The convergence diagnostic of one species: \<^verbatim>\<open>np.max(np.abs(rho_new - rho))\<close>.\<close>

definition max_abs_diff :: "fl list \<Rightarrow> fl list \<Rightarrow> fl" where
  "max_abs_diff rho_new rho = np_max (map fabs (vsub rho_new rho))"

section \<open>Arguments, states and results of the solvers\<close>

text \<open>
  The keyword arguments the three solvers share, and what each adds. The learned model,
  \<^verbatim>\<open>input_bins\<close> and \<^verbatim>\<open>output_dict\<close> are only handed to the correlation evaluator of
  \<^verbatim>\<open>neural_utils\<close>, which is not part of this repository's sources: the evaluator with
  these arguments fixed is the field \<open>c1_onetype\<close> (or \<open>c1_twotype\<close>), a function from the
  current density to the correlation profile. The plotting calls have no result and are
  left out; the tests on \<^verbatim>\<open>plot\<close>, \<^verbatim>\<open>plot_every\<close> and \<^verbatim>\<open>print_every\<close> stay, since a
  modulus by zero raises.
\<close>

record picard_args =
  zbins :: "fl list"
  plot :: bool
  maxiter :: int
  alpha_initial :: fl
  alpha_updates :: "schedule option"
  initial_guess :: fl
  print_every :: int
  plot_every :: int
  tolerance :: fl

record sr1_args = picard_args +
  c1_onetype :: "fl list \<Rightarrow> fl list"
  muloc :: "fl list"

record sr2_args = picard_args +
  c1_twotype :: "fl list \<Rightarrow> fl list \<Rightarrow> fl list \<times> fl list"
  muloc_H :: "fl list"
  muloc_O :: "fl list"

text \<open>The constants of \<^verbatim>\<open>scipy.constants\<close> that \<^verbatim>\<open>mu_correction\<close> reads, and the four
  functions of \<^verbatim>\<open>lmft_utils\<close> that the long-range solver calls; \<open>'k\<close> is the type of the
  wavenumber grid and \<open>'n\<close> the type of the transformed field.\<close>

record constants =
  elementary_charge :: real
  epsilon_0 :: real
  Boltzmann :: real

record ('k, 'n) lmft =
  calculate_prefactor :: "fl \<Rightarrow> fl \<Rightarrow> fl"
  compute_wave_numbers :: "nat \<Rightarrow> fl \<Rightarrow> 'k"
  fourier_transform :: "fl list \<Rightarrow> fl list \<Rightarrow> 'k \<Rightarrow> 'k \<times> 'n"
  restructure_electrostatic_potential :: "'n \<Rightarrow> 'k \<Rightarrow> fl list \<Rightarrow> fl \<Rightarrow> fl list"

record ('k, 'n) lr_args = sr2_args +
  q_H :: fl
  q_O :: fl
  kappa_inv :: fl
  temp :: fl
  dielectric :: fl
  alpha_restr_updates :: "schedule option"
  tolerance_restr :: fl
  phys :: constants
  lmft_utils :: "('k, 'n) lmft"

text \<open>The variables a loop carries from one iteration to the next.\<close>

record relax =
  alpha :: fl

record sr1_state = relax +
  log_rho_new :: "fl list"
  log_rho :: "fl list"
  rho :: "fl list"

record sr2_state = relax +
  log_rho_H_new :: "fl list"
  log_rho_O_new :: "fl list"
  log_rho_H :: "fl list"
  log_rho_O :: "fl list"
  rho_H :: "fl list"
  rho_O :: "fl list"

record 'k lr_state = sr2_state +
  alpha_restr :: fl
  delta_phi :: "fl list"
  kbins :: 'k

text \<open>What one pass computes besides the next state: the target densities and the
  diagnostics.\<close>

record diag =
  delta :: fl

record diag1 = diag +
  rho_new :: "fl list"

record diag2 = diag +
  rho_H_new :: "fl list"
  rho_O_new :: "fl list"

record diag_lr = diag2 +
  charge_density :: "fl list"
  delta_phi_new :: "fl list"
  delta_restr :: fl

text \<open>A solver returns a tuple: the grid and the densities, or \<^verbatim>\<open>None\<close> in every field.\<close>

type_synonym ret1 = "fl list option \<times> fl list option"

type_synonym ret2 = "fl list option \<times> fl list option \<times> fl list option"

section \<open>The single-species solver\<close>

text \<open>Lines 131 to 149 of \<^verbatim>\<open>minimise_SR_onetype\<close>: the schedule, the evaluator, the
  density update and the diagnostic. Indexing \<^verbatim>\<open>c1_pred\<close> with the mask raises
  \<^verbatim>\<open>IndexError\<close> when the evaluator returned an array of another length.\<close>

definition sr1_step ::
  "sr1_args \<Rightarrow> schedule \<Rightarrow> bool list \<Rightarrow> int \<Rightarrow> sr1_state \<Rightarrow> py_error + sr1_state \<times> diag1"
where
  "sr1_step a upd valid i s =
     (let alpha' = schedule_update upd i (alpha s);
          c1_pred = c1_onetype a (rho s)
      in if length c1_pred \<noteq> length valid then Inl IndexError
         else
           let (log_rho_new', rho_new', log_rho', rho') =
                 picard_update valid (muloc a) c1_pred (log_rho_new s) alpha' (log_rho s)
           in Inr (\<lparr>alpha = alpha', log_rho_new = log_rho_new', log_rho = log_rho',
                     rho = rho'\<rparr>,
                   \<lparr>delta = max_abs_diff rho_new' rho', rho_new = rho_new'\<rparr>))"

text \<open>The whole body: the divergence test, the relative error and the convergence test
  (lines 152 to 165).\<close>

definition sr1_body ::
  "sr1_args \<Rightarrow> schedule \<Rightarrow> bool list \<Rightarrow> int \<Rightarrow> sr1_state \<Rightarrow> py_error + (sr1_state, ret1) control"
where
  "sr1_body a upd valid i s =
     (if plot a \<and> plot_every a = 0 then Inl ZeroDivisionError
      else
        case sr1_step a upd valid i s of
          Inl e \<Rightarrow> Inl e
        | Inr (s', d) \<Rightarrow>
            if isnan (delta d) then Inr (Return (None, None))
            else
              let relative_error = fdiv (delta d) (np_max (rho s'))
              in if plot a \<and> print_every a = 0 then Inl ZeroDivisionError
                 else if flt (delta d) (tolerance a) \<or> flt relative_error (tolerance a)
                 then Inr (Return (Some (zbins a), Some (rho s')))
                 else Inr (Next s'))"

definition sr1_schedule :: "sr1_args \<Rightarrow> schedule" where
  "sr1_schedule a =
     (case alpha_updates a of None \<Rightarrow> alpha_updates_default_onetype | Some u \<Rightarrow> u)"

definition sr1_init :: "sr1_args \<Rightarrow> sr1_state" where
  "sr1_init a =
     (let n = length (zbins a)
      in \<lparr>alpha = alpha_initial a, log_rho_new = zeros n,
           log_rho = initial_log_rho n (validity (muloc a)) (initial_guess a),
           rho = smul (initial_guess a) (ones n)\<rparr>)"

text \<open>The step and the body with the schedule and the mask the set-up computes.\<close>

definition sr1_step_of :: "sr1_args \<Rightarrow> int \<Rightarrow> sr1_state \<Rightarrow> py_error + sr1_state \<times> diag1" where
  "sr1_step_of a = sr1_step a (sr1_schedule a) (validity (muloc a))"

definition sr1_body_of ::
  "sr1_args \<Rightarrow> int \<Rightarrow> sr1_state \<Rightarrow> py_error + (sr1_state, ret1) control"
where
  "sr1_body_of a = sr1_body a (sr1_schedule a) (validity (muloc a))"

text \<open>
  \<^verbatim>\<open>zbins[-1]\<close> raises on an empty grid, and the masked assignment of line 117 raises
  when \<^verbatim>\<open>muloc\<close> has another length than the grid. When \<^verbatim>\<open>range(maxiter + 1)\<close> is empty
  the final \<^verbatim>\<open>print\<close> reads the unbound \<^verbatim>\<open>i\<close>.
\<close>

definition minimise_SR_onetype :: "sr1_args \<Rightarrow> py_error + ret1" where
  "minimise_SR_onetype a =
     (if zbins a = [] then Inl IndexError
      else if length (muloc a) \<noteq> length (zbins a) then Inl IndexError
      else
        case for_range (sr1_body_of a) (nat (maxiter a + 1)) 0 (sr1_init a) of
          Inl e \<Rightarrow> Inl e
        | Inr (Return r) \<Rightarrow> Inr r
        | Inr (Next s) \<Rightarrow>
            if maxiter a + 1 \<le> 0 then Inl UnboundLocalError else Inr (None, None))"

section \<open>The two-species solver\<close>

text \<open>Lines 226 to 252 of \<^verbatim>\<open>minimise_SR_twotype\<close>. The joint diagnostic is Python's
  \<^verbatim>\<open>max(delta_H, delta_O)\<close>; \<^verbatim>\<open>np.max\<close> of an empty array raises \<^verbatim>\<open>ValueError\<close>.\<close>

definition sr2_step ::
  "sr2_args \<Rightarrow> schedule \<Rightarrow> bool list \<Rightarrow> bool list \<Rightarrow> int \<Rightarrow> sr2_state
     \<Rightarrow> py_error + sr2_state \<times> diag2"
where
  "sr2_step a upd validH validO i s =
     (let alpha' = schedule_update upd i (alpha s);
          (c1_H_pred, c1_O_pred) = c1_twotype a (rho_H s) (rho_O s)
      in if length c1_H_pred \<noteq> length validH then Inl IndexError
         else if length c1_O_pred \<noteq> length validO then Inl IndexError
         else
           let (log_rho_H_new', rho_H_new', log_rho_H', rho_H') =
                 picard_update validH (muloc_H a) c1_H_pred (log_rho_H_new s) alpha'
                   (log_rho_H s);
               (log_rho_O_new', rho_O_new', log_rho_O', rho_O') =
                 picard_update validO (muloc_O a) c1_O_pred (log_rho_O_new s) alpha'
                   (log_rho_O s)
           in if rho_H' = [] \<or> rho_O' = [] then Inl ValueError
              else
                Inr (\<lparr>alpha = alpha', log_rho_H_new = log_rho_H_new',
                      log_rho_O_new = log_rho_O_new', log_rho_H = log_rho_H',
                      log_rho_O = log_rho_O', rho_H = rho_H', rho_O = rho_O'\<rparr>,
                     \<lparr>delta = py_max (max_abs_diff rho_H_new' rho_H')
                                (max_abs_diff rho_O_new' rho_O'),
                      rho_H_new = rho_H_new', rho_O_new = rho_O_new'\<rparr>))"

text \<open>Lines 254 to 267.\<close>

definition sr2_body ::
  "sr2_args \<Rightarrow> schedule \<Rightarrow> bool list \<Rightarrow> bool list \<Rightarrow> int \<Rightarrow> sr2_state
     \<Rightarrow> py_error + (sr2_state, ret2) control"
where
  "sr2_body a upd validH validO i s =
     (if plot a \<and> plot_every a = 0 then Inl ZeroDivisionError
      else
        case sr2_step a upd validH validO i s of
          Inl e \<Rightarrow> Inl e
        | Inr (s', d) \<Rightarrow>
            if isnan (delta d) then Inr (Return (None, None, None))
            else
              let relative_error =
                    fdiv (delta d) (py_max (np_max (rho_O s')) (np_max (rho_H s')))
              in if print_every a = 0 then Inl ZeroDivisionError
                 else if flt (delta d) (tolerance a) \<or> flt relative_error (tolerance a)
                 then Inr (Return (Some (zbins a), Some (rho_H s'), Some (rho_O s')))
                 else Inr (Next s'))"

definition sr2_schedule :: "'a sr2_args_scheme \<Rightarrow> schedule" where
  "sr2_schedule a =
     (case alpha_updates a of None \<Rightarrow> alpha_updates_default_twotype | Some u \<Rightarrow> u)"

definition sr2_init :: "'a sr2_args_scheme \<Rightarrow> sr2_state" where
  "sr2_init a =
     (let n = length (zbins a)
      in \<lparr>alpha = alpha_initial a, log_rho_H_new = zeros n, log_rho_O_new = zeros n,
           log_rho_H = initial_log_rho n (validity (muloc_H a)) (initial_guess a),
           log_rho_O = initial_log_rho n (validity (muloc_O a)) (initial_guess a),
           rho_H = smul (initial_guess a) (ones n),
           rho_O = smul (initial_guess a) (ones n)\<rparr>)"

text \<open>The step and the body with the schedule and the masks the set-up computes.\<close>

definition sr2_step_of :: "sr2_args \<Rightarrow> int \<Rightarrow> sr2_state \<Rightarrow> py_error + sr2_state \<times> diag2" where
  "sr2_step_of a =
     sr2_step a (sr2_schedule a) (validity (muloc_H a)) (validity (muloc_O a))"

definition sr2_body_of ::
  "sr2_args \<Rightarrow> int \<Rightarrow> sr2_state \<Rightarrow> py_error + (sr2_state, ret2) control"
where
  "sr2_body_of a =
     sr2_body a (sr2_schedule a) (validity (muloc_H a)) (validity (muloc_O a))"

text \<open>The masked assignments of lines 209 and 210 raise when a chemical potential has
  another length than the grid; after an empty range the final \<^verbatim>\<open>print\<close> reads the unbound
  \<^verbatim>\<open>delta\<close>.\<close>

definition minimise_SR_twotype :: "sr2_args \<Rightarrow> py_error + ret2" where
  "minimise_SR_twotype a =
     (if length (muloc_H a) \<noteq> length (zbins a) then Inl IndexError
      else if length (muloc_O a) \<noteq> length (zbins a) then Inl IndexError
      else
        case for_range (sr2_body_of a) (nat (maxiter a + 1)) 0 (sr2_init a) of
          Inl e \<Rightarrow> Inl e
        | Inr (Return r) \<Rightarrow> Inr r
        | Inr (Next s) \<Rightarrow>
            if maxiter a + 1 \<le> 0 then Inl UnboundLocalError else Inr (None, None, None))"

section \<open>Secondary threshold and default tolerances of the long-range solver\<close>

text \<open>
  Line 398 compares the density delta with the literal \<^verbatim>\<open>1e-2\<close>; the signature of
  \<^verbatim>\<open>minimise_LR_twotype\<close> gives \<^verbatim>\<open>tolerance=1e-5\<close> and \<^verbatim>\<open>tolerance_restr = 1e-3\<close>.
\<close>

definition secondary_threshold :: fl where
  "secondary_threshold = Fin (1 / 100)"

definition LR_default_tolerance :: fl where
  "LR_default_tolerance = Fin (1 / 100000)"

definition LR_default_tolerance_restr :: fl where
  "LR_default_tolerance_restr = Fin (1 / 1000)"

section \<open>The long-range two-species solver\<close>

text \<open>
  \<^verbatim>\<open>mu_correction\<close> (lines 273 to 278). The solver passes \<^verbatim>\<open>np.abs(q)\<close>, a numpy scalar,
  so the division that defines \<^verbatim>\<open>first\<close> follows numpy; \<^verbatim>\<open>prefactor\<close> and \<^verbatim>\<open>beta\<close> are
  quotients of Python floats, which raise \<^verbatim>\<open>ZeroDivisionError\<close> on a zero divisor.
\<close>

definition mu_correction :: "constants \<Rightarrow> fl \<Rightarrow> fl \<Rightarrow> fl \<Rightarrow> py_error + fl" where
  "mu_correction c q kappa temperature =
     (let d = 4 * pi * epsilon_0 c * (1 / 10 ^ 10);
          kT = fmul (Fin (Boltzmann c)) temperature
      in if d = 0 then Inl ZeroDivisionError
         else if kT = Fin 0 then Inl ZeroDivisionError
         else
           let prefactor = Fin ((elementary_charge c)\<^sup>2 / d);
               beta = fdiv (Fin 1) kT;
               first = fdiv (fneg (fmul q q)) (fmul kappa (Fin (sqrt pi)))
           in Inr (fmul (fmul prefactor first) beta))"

text \<open>\<^verbatim>\<open>c1_pred_SR - mu_correction + q * delta_phi\<close> (lines 367 and 368).\<close>

definition corrected_c1 :: "fl list \<Rightarrow> fl list \<Rightarrow> fl \<Rightarrow> fl list \<Rightarrow> py_error + fl list" where
  "corrected_c1 c1_pred_SR mu q phi =
     (case np_bin fsub c1_pred_SR mu of
        Inl e \<Rightarrow> Inl e
      | Inr t \<Rightarrow> np_bin fadd t (smul q phi))"

text \<open>The charge density the solver transforms (line 386).\<close>

definition lr_charge_density :: "fl list \<Rightarrow> fl \<Rightarrow> fl list \<Rightarrow> fl \<Rightarrow> fl list" where
  "lr_charge_density rhoO qO rhoH qH = vadd (muls rhoO qO) (muls rhoH qH)"

text \<open>The two-phase update of the restructuring potential (lines 398 to 401).\<close>

definition update_delta_phi ::
  "fl \<Rightarrow> fl \<Rightarrow> fl \<Rightarrow> fl \<Rightarrow> fl list \<Rightarrow> fl list \<Rightarrow> py_error + fl list"
where
  "update_delta_phi dlt dlt_restr tol_restr a_restr phi phi_new =
     (if flt dlt secondary_threshold \<and> fgt dlt_restr tol_restr
      then np_bin fadd (smul (fsub (Fin 1) a_restr) phi) (smul a_restr phi_new)
      else Inr phi_new)"

text \<open>Lines 357 to 401 of \<^verbatim>\<open>minimise_LR_twotype\<close>. \<open>pre\<close> is
  \<^verbatim>\<open>prefactor_restructure\<close>, \<open>muH\<close> and \<open>muO\<close> are the arrays \<^verbatim>\<open>mu_H_correction\<close> and
  \<^verbatim>\<open>mu_O_correction\<close>.\<close>

definition lr_step ::
  "('k, 'n) lr_args \<Rightarrow> schedule \<Rightarrow> schedule \<Rightarrow> bool list \<Rightarrow> bool list \<Rightarrow> fl \<Rightarrow> fl list
     \<Rightarrow> fl list \<Rightarrow> int \<Rightarrow> 'k lr_state \<Rightarrow> py_error + 'k lr_state \<times> diag_lr"
where
  "lr_step a upd upd_restr validH validO pre muH muO i s =
     (let alpha' = schedule_update upd i (alpha s);
          alpha_restr' = schedule_update upd_restr i (alpha_restr s);
          (c1_H_pred_SR, c1_O_pred_SR) = c1_twotype a (rho_H s) (rho_O s)
      in case corrected_c1 c1_H_pred_SR muH (q_H a) (delta_phi s) of
           Inl e \<Rightarrow> Inl e
         | Inr c1_H_LR \<Rightarrow>
        (case corrected_c1 c1_O_pred_SR muO (q_O a) (delta_phi s) of
           Inl e \<Rightarrow> Inl e
         | Inr c1_O_LR \<Rightarrow>
        if length c1_H_LR \<noteq> length validH then Inl IndexError
        else if length c1_O_LR \<noteq> length validO then Inl IndexError
        else
          let (log_rho_H_new', rho_H_new', log_rho_H', rho_H') =
                picard_update validH (muloc_H a) c1_H_LR (log_rho_H_new s) alpha'
                  (log_rho_H s);
              (log_rho_O_new', rho_O_new', log_rho_O', rho_O') =
                picard_update validO (muloc_O a) c1_O_LR (log_rho_O_new s) alpha'
                  (log_rho_O s);
              charge = lr_charge_density rho_O' (q_O a) rho_H' (q_H a);
              (kbins', n_k) = fourier_transform (lmft_utils a) (zbins a) charge (kbins s);
              phi_new =
                muls (map fneg
                        (restructure_electrostatic_potential (lmft_utils a) n_k kbins'
                           (zbins a) (kappa_inv a)))
                  pre;
              dlt = py_max (max_abs_diff rho_H_new' rho_H') (max_abs_diff rho_O_new' rho_O')
          in case np_bin fsub phi_new (delta_phi s) of
               Inl e \<Rightarrow> Inl e
             | Inr diff \<Rightarrow>
            if diff = [] then Inl ValueError
            else
              let dlt_restr = np_max (map fabs diff)
              in case update_delta_phi dlt dlt_restr (tolerance_restr a) alpha_restr'
                        (delta_phi s) phi_new of
                   Inl e \<Rightarrow> Inl e
                 | Inr delta_phi' \<Rightarrow>
                     Inr (\<lparr>alpha = alpha', log_rho_H_new = log_rho_H_new',
                           log_rho_O_new = log_rho_O_new', log_rho_H = log_rho_H',
                           log_rho_O = log_rho_O', rho_H = rho_H', rho_O = rho_O',
                           alpha_restr = alpha_restr', delta_phi = delta_phi',
                           kbins = kbins'\<rparr>,
                          \<lparr>delta = dlt, rho_H_new = rho_H_new', rho_O_new = rho_O_new',
                           charge_density = charge, delta_phi_new = phi_new,
                           delta_restr = dlt_restr\<rparr>)))"

text \<open>Lines 404 to 431: the divergence test, the second transform of the plotting branch
  (it overwrites \<^verbatim>\<open>kbins\<close>), and the joint convergence test.\<close>

definition lr_body ::
  "('k, 'n) lr_args \<Rightarrow> schedule \<Rightarrow> schedule \<Rightarrow> bool list \<Rightarrow> bool list \<Rightarrow> fl \<Rightarrow> fl list
     \<Rightarrow> fl list \<Rightarrow> int \<Rightarrow> 'k lr_state \<Rightarrow> py_error + ('k lr_state, ret2) control"
where
  "lr_body a upd upd_restr validH validO pre muH muO i s =
     (case lr_step a upd upd_restr validH validO pre muH muO i s of
        Inl e \<Rightarrow> Inl e
      | Inr (s', d) \<Rightarrow>
          if isnan (delta d) then Inr (Return (None, None, None))
          else if plot a \<and> plot_every a = 0 then Inl ZeroDivisionError
          else
            let s'' =
                  (if plot a \<and> i mod plot_every a = 0
                   then s'\<lparr>kbins :=
                          fst (fourier_transform (lmft_utils a) (zbins a) (charge_density d)
                                 (kbins s'))\<rparr>
                   else s')
            in if print_every a = 0 then Inl ZeroDivisionError
               else if flt (delta d) (tolerance a) \<and> flt (delta_restr d) (tolerance_restr a)
               then Inr (Return (Some (zbins a), Some (rho_H s''), Some (rho_O s'')))
               else Inr (Next s''))"

definition lr_schedule_restr :: "('k, 'n) lr_args \<Rightarrow> schedule" where
  "lr_schedule_restr a =
     (case alpha_restr_updates a of None \<Rightarrow> alpha_restr_updates_default | Some u \<Rightarrow> u)"

definition lr_init :: "('k, 'n) lr_args \<Rightarrow> 'k lr_state" where
  "lr_init a =
     (let n = length (zbins a); s = sr2_init a
      in \<lparr>alpha = alpha s, log_rho_H_new = log_rho_H_new s,
           log_rho_O_new = log_rho_O_new s, log_rho_H = log_rho_H s,
           log_rho_O = log_rho_O s, rho_H = rho_H s, rho_O = rho_O s,
           alpha_restr = Fin (1 / 100), delta_phi = zeros n,
           kbins =
             compute_wave_numbers (lmft_utils a) n (fsub (zbins a ! 1) (zbins a ! 0))\<rparr>)"

text \<open>The step and the body with the values the set-up computes: the schedules, the masks,
  \<^verbatim>\<open>prefactor_restructure\<close> and the two correction arrays
  \<^verbatim>\<open>mu_correction(...) * np.ones_like(zbins)\<close>.\<close>

definition lr_step_of ::
  "('k, 'n) lr_args \<Rightarrow> fl \<Rightarrow> fl \<Rightarrow> int \<Rightarrow> 'k lr_state \<Rightarrow> py_error + 'k lr_state \<times> diag_lr"
where
  "lr_step_of a mH mO =
     lr_step a (sr2_schedule a) (lr_schedule_restr a) (validity (muloc_H a))
       (validity (muloc_O a)) (calculate_prefactor (lmft_utils a) (temp a) (dielectric a))
       (smul mH (ones (length (zbins a)))) (smul mO (ones (length (zbins a))))"

definition lr_body_of ::
  "('k, 'n) lr_args \<Rightarrow> fl \<Rightarrow> fl \<Rightarrow> int \<Rightarrow> 'k lr_state
     \<Rightarrow> py_error + ('k lr_state, ret2) control"
where
  "lr_body_of a mH mO =
     lr_body a (sr2_schedule a) (lr_schedule_restr a) (validity (muloc_H a))
       (validity (muloc_O a)) (calculate_prefactor (lmft_utils a) (temp a) (dielectric a))
       (smul mH (ones (length (zbins a)))) (smul mO (ones (length (zbins a))))"

text \<open>
  The set-up (lines 318 to 350) raises \<^verbatim>\<open>IndexError\<close> when a chemical potential has another
  length than the grid or the grid has fewer than two points (\<^verbatim>\<open>zbins[1]\<close>), and
  \<^verbatim>\<open>mu_correction\<close> may raise.
\<close>

definition minimise_LR_twotype :: "('k, 'n) lr_args \<Rightarrow> py_error + ret2" where
  "minimise_LR_twotype a =
     (let n = length (zbins a)
      in if length (muloc_H a) \<noteq> n then Inl IndexError
         else if length (muloc_O a) \<noteq> n then Inl IndexError
         else if n < 2 then Inl IndexError
         else
           case mu_correction (phys a) (fabs (q_H a)) (kappa_inv a) (temp a) of
             Inl e \<Rightarrow> Inl e
           | Inr mH \<Rightarrow>
          (case mu_correction (phys a) (fabs (q_O a)) (kappa_inv a) (temp a) of
             Inl e \<Rightarrow> Inl e
           | Inr mO \<Rightarrow>
          (case for_range (lr_body_of a mH mO) (nat (maxiter a + 1)) 0 (lr_init a) of
             Inl e \<Rightarrow> Inl e
           | Inr (Return r) \<Rightarrow> Inr r
           | Inr (Next s) \<Rightarrow>
               if maxiter a + 1 \<le> 0 then Inl UnboundLocalError
               else Inr (None, None, None))))"

section \<open>The standalone charge density\<close>

text \<open>\<^verbatim>\<open>calculate_charge_density\<close> (lines 436 to 441). The trapezoidal sum, the product
  and the quotient are those of this model, exact on finite values; the code rounds each
  of them to a double.\<close>

definition calculate_charge_density ::
  "fl list \<Rightarrow> fl \<Rightarrow> fl \<Rightarrow> fl list \<Rightarrow> py_error + fl list"
where
  "calculate_charge_density rho_in charge L z =
     (case np_trapz rho_in z of
        Inl e \<Rightarrow> Inl e
      | Inr total_number_particle \<Rightarrow>
          let total_charge = fmul total_number_particle charge;
              background_charge_density = fdiv total_charge L
          in Inr (map (\<lambda>r. fsub (fmul r charge) background_charge_density) rho_in))"

section \<open>Reference notions used in the statements and proofs\<close>

text \<open>The trapezoidal sum over real lists, and the list of its terms.\<close>

fun rtrapz :: "real list \<Rightarrow> real list \<Rightarrow> real" where
  "rtrapz (y0 # y1 # ys) (x0 # x1 # xs) =
     (x1 - x0) * (y1 + y0) / 2 + rtrapz (y1 # ys) (x1 # xs)"
| "rtrapz _ _ = 0"

fun rterms :: "real list \<Rightarrow> real list \<Rightarrow> real list" where
  "rterms (y0 # y1 # ys) (x0 # x1 # xs) =
     (x1 - x0) * (y1 + y0) / 2 # rterms (y1 # ys) (x1 # xs)"
| "rterms _ _ = []"

text \<open>The target log-density, position by position: the local chemical potential plus the
  correlation where the mask is true, \<^verbatim>\<open>-np.inf\<close> elsewhere.\<close>

definition target_log :: "bool list \<Rightarrow> fl list \<Rightarrow> fl list \<Rightarrow> fl list" where
  "target_log valid m c = map (\<lambda>(v, x, y). if v then fadd x y else NInf) (zip valid (zip m c))"

text \<open>A one-point instance of the single-species solver, used to instantiate the theorems:
  chemical potential 2, an evaluator that returns zero, initial guess 1, coefficient 1/2.\<close>

definition example_sr1 :: sr1_args where
  "example_sr1 = \<lparr>zbins = [Fin 0], plot = False, maxiter = 0, alpha_initial = Fin (1 / 2),
     alpha_updates = None, initial_guess = Fin 1, print_every = 1, plot_every = 1,
     tolerance = Fin 0, c1_onetype = (\<lambda>r. map (\<lambda>_. Fin 0) r), muloc = [Fin 2]\<rparr>"

text \<open>A two-point instance of the long-range solver with neutral species, an evaluator that
  returns zero and spectral utilities that hand the charge density back; and the same
  instance with a reconstruction that returns the constant one, which puts the first
  iteration in the damped phase.\<close>

definition example_lr :: "(unit, fl list) lr_args" where
  "example_lr = \<lparr>zbins = [Fin 0, Fin 1], plot = False, maxiter = 0, alpha_initial = Fin (1 / 2),
     alpha_updates = None, initial_guess = Fin 1, print_every = 1, plot_every = 1,
     tolerance = Fin (1 / 100000),
     c1_twotype = (\<lambda>rh ro. (map (\<lambda>_. Fin 0) rh, map (\<lambda>_. Fin 0) ro)),
     muloc_H = [Fin 0, Fin 0], muloc_O = [Fin 0, Fin 0],
     q_H = Fin 0, q_O = Fin 0, kappa_inv = Fin 1, temp = Fin 1, dielectric = Fin 1,
     alpha_restr_updates = None, tolerance_restr = Fin (1 / 1000),
     phys = \<lparr>elementary_charge = 1, epsilon_0 = 1, Boltzmann = 1\<rparr>,
     lmft_utils = \<lparr>calculate_prefactor = (\<lambda>t d. Fin 1), compute_wave_numbers = (\<lambda>n dz. ()),
       fourier_transform = (\<lambda>z c k. ((), c)),
       restructure_electrostatic_potential = (\<lambda>nk k z kap. nk)\<rparr>\<rparr>"

definition example_lr_damped :: "(unit, fl list) lr_args" where
  "example_lr_damped = example_lr\<lparr>lmft_utils :=
     \<lparr>calculate_prefactor = (\<lambda>t d. Fin 1), compute_wave_numbers = (\<lambda>n dz. ()),
       fourier_transform = (\<lambda>z c k. ((), c)),
       restructure_electrostatic_potential = (\<lambda>nk k z kap. map (\<lambda>_. Fin 1) z)\<rparr>\<rparr>"

text \<open>The first instance with the charges \<open>1\<close> and \<open>-2\<close>: the two species together carry
  the total charge \<open>-1\<close> over the grid.\<close>

definition example_lr_charged :: "(unit, fl list) lr_args" where
  "example_lr_charged = example_lr\<lparr>q_H := Fin 1, q_O := Fin (- 2)\<rparr>"

text \<open>One-point instances in which the evaluator returns NaN: for the second species of the
  two-species solver only, and for the single species.\<close>

definition nan_sr2 :: sr2_args where
  "nan_sr2 = \<lparr>zbins = [Fin 0], plot = False, maxiter = 100000,
     alpha_initial = Fin (1 / 1000000), alpha_updates = None, initial_guess = Fin 1,
     print_every = 1000, plot_every = 1000, tolerance = Fin (1 / 100000),
     c1_twotype = (\<lambda>rh ro. (map (\<lambda>_. Fin 0) rh, map (\<lambda>_. NaN) ro)),
     muloc_H = [Fin 0], muloc_O = [Fin 0]\<rparr>"

definition nan_sr1 :: sr1_args where
  "nan_sr1 = \<lparr>zbins = [Fin 0], plot = False, maxiter = 10000,
     alpha_initial = Fin (1 / 1000000), alpha_updates = None, initial_guess = Fin 1,
     print_every = 1000, plot_every = 1000, tolerance = Fin (5 / 1000000),
     c1_onetype = (\<lambda>r. map (\<lambda>_. NaN) r), muloc = [Fin 0]\<rparr>"

text \<open>
  What the claims say of a density field: \<open>fle\<close> is the comparison \<^verbatim>\<open>a <= b\<close>; a density is
  in order for a mask when it has the mask's length and is non-negative everywhere, strictly
  positive where the mask is true and exactly zero where it is false. A coefficient is in
  order when it lies strictly between 0 and 1. \<open>bounded_by b x\<close> says that \<open>x\<close> is finite with
  magnitude at most \<open>b\<close>. The bound on a log-density is 700: \<^verbatim>\<open>np.exp\<close> of a value between
  \<open>-700\<close> and \<open>700\<close> is a positive finite double, with a margin to the two cut-offs. An
  initial guess is in order when it is strictly positive and its logarithm is within that
  bound; a log-density when it is within the bound at the valid positions and \<^verbatim>\<open>-inf\<close> at
  the others; a correlation profile, for a chemical potential, when it has the mask's
  length and the target log-density (chemical potential plus profile) is within the bound
  at the valid positions; a potential, for a bound \<open>P\<close>, when it is over the grid and within
  \<open>P\<close> everywhere.
\<close>

definition fle :: "fl \<Rightarrow> fl \<Rightarrow> bool" where
  "fle a b = (flt a b \<or> (a = b \<and> \<not> isnan a))"

definition coeff_ok :: "fl \<Rightarrow> bool" where
  "coeff_ok x = (flt (Fin 0) x \<and> flt x (Fin 1))"

definition schedule_ok :: "schedule \<Rightarrow> bool" where
  "schedule_ok upd = list_all (\<lambda>kv. coeff_ok (snd kv)) upd"

definition bounded_by :: "real \<Rightarrow> fl \<Rightarrow> bool" where
  "bounded_by b x = (fle (Fin (- b)) x \<and> fle x (Fin b))"

definition guess_ok :: "fl \<Rightarrow> bool" where
  "guess_ok g = (flt (Fin 0) g \<and> bounded_by 700 (flog g))"

definition density_ok :: "bool list \<Rightarrow> fl list \<Rightarrow> bool" where
  "density_ok valid r =
     list_all2 (\<lambda>v x. fle (Fin 0) x \<and> (if v then flt (Fin 0) x else x = Fin 0)) valid r"

definition log_ok :: "bool list \<Rightarrow> fl list \<Rightarrow> bool" where
  "log_ok valid lr = list_all2 (\<lambda>v x. if v then bounded_by 700 x else x = NInf) valid lr"

definition profile_ok :: "bool list \<Rightarrow> fl list \<Rightarrow> fl list \<Rightarrow> bool" where
  "profile_ok valid m c = (length c = length valid \<and> log_ok valid (target_log valid m c))"

definition potential_ok :: "real \<Rightarrow> nat \<Rightarrow> fl list \<Rightarrow> bool" where
  "potential_ok P n phi = (length phi = n \<and> list_all (bounded_by P) phi)"

text \<open>
  The inputs under which the densities of a solver stay in order: chemical potentials of the
  grid's length, an initial guess and coefficients in order, and an evaluator that returns,
  for densities over the grid, profiles in order. For the long-range solver the profile is
  the corrected one, \<^verbatim>\<open>c1_pred_SR - mu_correction + q * delta_phi\<close>, and has to be in
  order for every potential within a bound \<open>P\<close>, which the reconstructed potential
  \<^verbatim>\<open>- restructure_electrostatic_potential(...) * prefactor_restructure\<close> respects; the grid
  has at least two points and the corrections are those the set-up computes.
\<close>

definition sr1_inputs_ok :: "sr1_args \<Rightarrow> bool" where
  "sr1_inputs_ok a \<longleftrightarrow>
     length (muloc a) = length (zbins a) \<and> guess_ok (initial_guess a)
     \<and> coeff_ok (alpha_initial a) \<and> schedule_ok (sr1_schedule a)
     \<and> (\<forall>r. length r = length (zbins a) \<longrightarrow>
            profile_ok (validity (muloc a)) (muloc a) (c1_onetype a r))"

definition sr2_inputs_ok :: "'a sr2_args_scheme \<Rightarrow> bool" where
  "sr2_inputs_ok a \<longleftrightarrow>
     length (muloc_H a) = length (zbins a) \<and> length (muloc_O a) = length (zbins a)
     \<and> guess_ok (initial_guess a)
     \<and> coeff_ok (alpha_initial a) \<and> schedule_ok (sr2_schedule a)
     \<and> (\<forall>rh ro. length rh = length (zbins a) \<and> length ro = length (zbins a) \<longrightarrow>
            profile_ok (validity (muloc_H a)) (muloc_H a) (fst (c1_twotype a rh ro))
            \<and> profile_ok (validity (muloc_O a)) (muloc_O a) (snd (c1_twotype a rh ro)))"

definition lr_inputs_ok :: "('k, 'n) lr_args \<Rightarrow> fl \<Rightarrow> fl \<Rightarrow> real \<Rightarrow> bool" where
  "lr_inputs_ok a mH mO P \<longleftrightarrow>
     length (muloc_H a) = length (zbins a) \<and> length (muloc_O a) = length (zbins a)
     \<and> 2 \<le> length (zbins a) \<and> guess_ok (initial_guess a)
     \<and> coeff_ok (alpha_initial a) \<and> schedule_ok (sr2_schedule a)
     \<and> schedule_ok (lr_schedule_restr a)
     \<and> mu_correction (phys a) (fabs (q_H a)) (kappa_inv a) (temp a) = Inr mH
     \<and> mu_correction (phys a) (fabs (q_O a)) (kappa_inv a) (temp a) = Inr mO
     \<and> 0 \<le> P
     \<and> (\<forall>nk k.
           potential_ok P (length (zbins a))
             (muls (map fneg
                      (restructure_electrostatic_potential (lmft_utils a) nk k (zbins a)
                         (kappa_inv a)))
                (calculate_prefactor (lmft_utils a) (temp a) (dielectric a))))
     \<and> (\<forall>rh ro phi.
           length rh = length (zbins a) \<and> length ro = length (zbins a)
           \<and> potential_ok P (length (zbins a)) phi \<longrightarrow>
           (\<exists>cH cO.
              corrected_c1 (fst (c1_twotype a rh ro)) (smul mH (ones (length (zbins a))))
                (q_H a) phi = Inr cH
            \<and> corrected_c1 (snd (c1_twotype a rh ro)) (smul mO (ones (length (zbins a))))
                (q_O a) phi = Inr cO
            \<and> profile_ok (validity (muloc_H a)) (muloc_H a) cH
            \<and> profile_ok (validity (muloc_O a)) (muloc_O a) cO))"

text \<open>The invariants of the three loops.\<close>

definition sr1_inv :: "sr1_args \<Rightarrow> sr1_state \<Rightarrow> bool" where
  "sr1_inv a s \<longleftrightarrow>
     length (log_rho_new s) = length (muloc a) \<and> length (rho s) = length (muloc a)
     \<and> log_ok (validity (muloc a)) (log_rho s) \<and> coeff_ok (alpha s)"

definition sr2_inv :: "'a sr2_args_scheme \<Rightarrow> 'b sr2_state_scheme \<Rightarrow> bool" where
  "sr2_inv a s \<longleftrightarrow>
     length (log_rho_H_new s) = length (muloc_H a) \<and> length (rho_H s) = length (muloc_H a)
     \<and> length (log_rho_O_new s) = length (muloc_O a) \<and> length (rho_O s) = length (muloc_O a)
     \<and> log_ok (validity (muloc_H a)) (log_rho_H s)
     \<and> log_ok (validity (muloc_O a)) (log_rho_O s) \<and> coeff_ok (alpha s)"

definition lr_inv :: "('k, 'n) lr_args \<Rightarrow> real \<Rightarrow> 'k lr_state \<Rightarrow> bool" where
  "lr_inv a P s \<longleftrightarrow>
     sr2_inv a s \<and> coeff_ok (alpha_restr s) \<and> potential_ok P (length (zbins a)) (delta_phi s)"

text \<open>A single-species instance with initial guess zero; one with the chemical potential
  \<open>-1e9\<close> at its only position, which is valid; and a two-species instance whose second
  species has an invalid position.\<close>

definition underflow_sr1 :: sr1_args where
  "underflow_sr1 = \<lparr>zbins = [Fin 0], plot = False, maxiter = 10000,
     alpha_initial = Fin (1 / 1000000), alpha_updates = None, initial_guess = Fin 1,
     print_every = 1000, plot_every = 1000, tolerance = Fin (5 / 1000000),
     c1_onetype = (\<lambda>r. map (\<lambda>_. Fin 0) r), muloc = [Fin (- 1000000000)]\<rparr>"

definition zero_guess_sr1 :: sr1_args where
  "zero_guess_sr1 = \<lparr>zbins = [Fin 0], plot = False, maxiter = 10000,
     alpha_initial = Fin (1 / 1000000), alpha_updates = None, initial_guess = Fin 0,
     print_every = 1000, plot_every = 1000, tolerance = Fin (5 / 1000000),
     c1_onetype = (\<lambda>r. map (\<lambda>_. Fin 0) r), muloc = [Fin (- 20)]\<rparr>"

definition example_sr2 :: sr2_args where
  "example_sr2 = \<lparr>zbins = [Fin 0], plot = False, maxiter = 0,
     alpha_initial = Fin (1 / 2), alpha_updates = None, initial_guess = Fin 1,
     print_every = 1, plot_every = 1, tolerance = Fin 0,
     c1_twotype = (\<lambda>rh ro. (map (\<lambda>_. Fin 0) rh, map (\<lambda>_. Fin 0) ro)),
     muloc_H = [Fin 2], muloc_O = [NInf]\<rparr>"

section \<open>Properties\<close>

subsection \<open>The range of the exponential\<close>

lemma exp_175_256: "exp (175 / 256 :: real) < 2"
proof -
  have "exp (175 / 8192 :: real) \<le> 1 + 175 / 8192 + (175 / 8192)\<^sup>2"
    by (rule exp_bound) simp_all
  then have "exp (175 / 8192 :: real) ^ 32 \<le> (1 + 175 / 8192 + (175 / 8192)\<^sup>2) ^ 32"
    by (rule power_mono) simp
  moreover have "exp (175 / 8192 :: real) ^ 32 = exp (175 / 256)"
    using exp_of_nat_mult[of 32 "175 / 8192 :: real"] by simp
  moreover have "(1 + 175 / 8192 + (175 / 8192)\<^sup>2) ^ 32 < (2::real)"
    by (simp add: power2_eq_square power_divide)
  ultimately show ?thesis by linarith
qed

lemma ln2_lower: "175 / 256 < ln (2::real)"
proof -
  have "ln (exp (175 / 256 :: real)) < ln 2"
    by (subst ln_less_cancel_iff) (simp_all add: exp_175_256)
  then show ?thesis by simp
qed

lemma exp_cutoffs: "exp_underflow < - 700" "700 < exp_overflow"
  using ln2_lower by (simp_all add: exp_underflow_def exp_overflow_def)

lemma fexp_Fin_between:
  "exp_underflow < a \<Longrightarrow> a < exp_overflow \<Longrightarrow> fexp (Fin a) = Fin (exp a)"
  by simp

lemma fexp_Fin_700 [simp]: "- 700 \<le> a \<Longrightarrow> a \<le> 700 \<Longrightarrow> fexp (Fin a) = Fin (exp a)"
  using exp_cutoffs by simp

lemma fexp_Fin_cases:
  "fexp (Fin a) = Fin 0 \<or> fexp (Fin a) = PInf \<or> (fexp (Fin a) = Fin (exp a)
     \<and> exp_underflow < a \<and> a < exp_overflow)"
  by simp

declare fexp.simps(1) [simp del]

lemma flt_irrefl: "\<not> flt a a"
  by (cases a) simp_all

subsection \<open>Arrays of finite values\<close>

lemma np_bin_same: "length xs = length ys \<Longrightarrow> np_bin f xs ys = Inr (map2 f xs ys)"
  by (simp add: np_bin_def)

lemma foldl_fadd_Fin: "foldl fadd (Fin a) (map Fin xs) = Fin (a + sum_list xs)"
  by (induction xs arbitrary: a) (simp_all add: add.assoc)

lemma np_sum_Fin: "np_sum (map Fin xs) = Fin (sum_list xs)"
  by (simp add: np_sum_def foldl_fadd_Fin)

lemma trapz_terms:
  "length y = length x \<Longrightarrow>
   map (\<lambda>v. fdiv v (Fin 2))
     (map2 fmul (map2 fsub (tl (map Fin x)) (butlast (map Fin x)))
                (map2 fadd (tl (map Fin y)) (butlast (map Fin y))))
   = map Fin (rterms y x)"
proof (induction y x rule: rtrapz.induct)
  case (1 y0 y1 ys x0 x1 xs)
  then show ?case by (simp add: fsub_def)
qed simp_all

lemma sum_rterms: "sum_list (rterms y x) = rtrapz y x"
  by (induction y x rule: rtrapz.induct) simp_all

lemma np_trapz_Fin:
  assumes "length y = length x"
  shows "np_trapz (map Fin y) (map Fin x) = Inr (Fin (rtrapz y x))"
proof -
  have len: "length (map2 fsub (tl (map Fin x)) (butlast (map Fin x)))
      = length (map2 fadd (tl (map Fin y)) (butlast (map Fin y)))"
    using assms by simp
  show ?thesis
    unfolding np_trapz_def np_diff_def np_bin_same[OF len]
    by (simp only: sum.case trapz_terms[OF assms] np_sum_Fin sum_rterms)
qed

text \<open>The trapezoidal sum of \<open>q * r - b\<close> is \<open>q\<close> times the sum of \<open>r\<close> minus \<open>b\<close> times the
  extent of the grid.\<close>

subsection \<open>Comparisons and the maximum of an array\<close>

lemma isnan_np_maximum: "isnan (np_maximum a b) \<longleftrightarrow> isnan a \<or> isnan b"
  by (auto simp: np_maximum_def)

lemma foldl_np_maximum_nan: "isnan (foldl np_maximum x xs) \<longleftrightarrow> isnan x \<or> (\<exists>y \<in> set xs. isnan y)"
  by (induction xs arbitrary: x) (auto simp: isnan_np_maximum)

lemma isnan_np_max: "xs \<noteq> [] \<Longrightarrow> isnan (np_max xs) \<longleftrightarrow> (\<exists>y \<in> set xs. isnan y)"
  by (cases xs) (auto simp: foldl_np_maximum_nan)

lemma flt_trans: "flt a b \<Longrightarrow> flt b c \<Longrightarrow> flt a c"
  by (cases a; cases b; cases c) auto

lemma not_flt_trans: "\<not> isnan b \<Longrightarrow> \<not> flt a b \<Longrightarrow> \<not> flt b c \<Longrightarrow> \<not> flt a c"
  by (cases a; cases b; cases c) auto

lemma foldl_np_maximum_mem: "foldl np_maximum x xs \<in> set (x # xs)"
  by (induction xs arbitrary: x) (auto simp: np_maximum_def)

lemma flt_not_nan: "flt a b \<Longrightarrow> \<not> isnan a"
  by (cases a) simp_all

lemma flt_asym: "flt a b \<Longrightarrow> \<not> flt b a"
  by (cases a; cases b) auto

lemma np_maximum_ge:
  assumes "\<not> isnan x" "\<not> isnan z"
  shows "\<not> flt (np_maximum x z) x" and "\<not> flt (np_maximum x z) z"
  using assms by (simp_all add: np_maximum_def flt_irrefl flt_asym)

lemma foldl_np_maximum_ub:
  "\<not> isnan (foldl np_maximum x xs) \<Longrightarrow> y \<in> set (x # xs) \<Longrightarrow> \<not> flt (foldl np_maximum x xs) y"
proof (induction xs arbitrary: x y)
  case Nil
  then show ?case by (simp add: flt_irrefl)
next
  case (Cons z zs)
  have nn: "\<not> isnan (foldl np_maximum (np_maximum x z) zs)" using Cons.prems(1) by simp
  then have nxz: "\<not> isnan x" "\<not> isnan z" "\<not> isnan (np_maximum x z)"
    by (simp_all add: foldl_np_maximum_nan isnan_np_maximum)
  have top: "\<not> flt (foldl np_maximum (np_maximum x z) zs) (np_maximum x z)"
    by (rule Cons.IH[OF nn]) simp
  consider "y = x" | "y = z" | "y \<in> set zs" using Cons.prems(2) by auto
  then have "\<not> flt (foldl np_maximum (np_maximum x z) zs) y"
  proof cases
    case 1
    show ?thesis unfolding 1
      by (rule not_flt_trans[OF nxz(3) top np_maximum_ge(1)[OF nxz(1,2)]])
  next
    case 2
    show ?thesis unfolding 2
      by (rule not_flt_trans[OF nxz(3) top np_maximum_ge(2)[OF nxz(1,2)]])
  next
    case 3
    show ?thesis by (rule Cons.IH[OF nn]) (simp add: 3)
  qed
  then show ?case by simp
qed

lemma np_max_mem: "xs \<noteq> [] \<Longrightarrow> np_max xs \<in> set xs"
  by (cases xs) (use foldl_np_maximum_mem in auto)

lemma np_max_ub: "\<not> isnan (np_max xs) \<Longrightarrow> y \<in> set xs \<Longrightarrow> \<not> flt (np_max xs) y"
  by (cases xs) (use foldl_np_maximum_ub in auto)

subsection \<open>The masked density update\<close>

lemma mask_target:
  "length buf = length valid \<Longrightarrow> length m = length valid \<Longrightarrow> length c = length valid \<Longrightarrow>
   mask_fill (mask_assign buf valid (vadd (bool_index m valid) (bool_index c valid)))
     (map Not valid) NInf = target_log valid m c"
proof (induction valid arbitrary: buf m c)
  case Nil
  then show ?case by (simp add: target_log_def)
next
  case (Cons v vs)
  then obtain b bs x xs y ys where [simp]: "buf = b # bs" "m = x # xs" "c = y # ys"
    and l: "length bs = length vs" "length xs = length vs" "length ys = length vs"
    by (auto simp: length_Suc_conv)
  have ih: "mask_fill (mask_assign bs vs (vadd (bool_index xs vs) (bool_index ys vs)))
     (map Not vs) NInf = target_log vs xs ys"
    by (rule Cons.IH[OF l])
  show ?case
    using ih by (cases v) (simp_all add: target_log_def vadd_def)
qed

lemma length_target_log:
  "length m = length valid \<Longrightarrow> length c = length valid \<Longrightarrow> length (target_log valid m c) = length valid"
  by (simp add: target_log_def)

lemma nth_target_log:
  "length m = length valid \<Longrightarrow> length c = length valid \<Longrightarrow> j < length valid \<Longrightarrow>
   target_log valid m c ! j = (if valid ! j then fadd (m ! j) (c ! j) else NInf)"
  by (simp add: target_log_def)

lemma picard_update_eq:
  assumes "length buf = length valid" "length m = length valid" "length c = length valid"
  shows "picard_update valid m c buf a lr =
     (target_log valid m c, map fexp (target_log valid m c),
      vadd (smul (fsub (Fin 1) a) lr) (smul a (target_log valid m c)),
      map fexp (vadd (smul (fsub (Fin 1) a) lr) (smul a (target_log valid m c))))"
  unfolding picard_update_def mask_target[OF assms] by (simp add: Let_def)

lemma nth_mix:
  "length lr = n \<Longrightarrow> length t = n \<Longrightarrow> j < n \<Longrightarrow>
   vadd (smul b lr) (smul a t) ! j = fadd (fmul b (lr ! j)) (fmul a (t ! j))"
  by (simp add: vadd_def smul_def)

lemma length_mix: "length lr = n \<Longrightarrow> length t = n \<Longrightarrow> length (vadd (smul b lr) (smul a t)) = n"
  by (simp add: vadd_def smul_def)

subsection \<open>Loops\<close>

lemma for_range_snoc:
  "for_range body (Suc n) i s =
     (case for_range body n i s of
        Inl e \<Rightarrow> Inl e
      | Inr (Return r) \<Rightarrow> Inr (Return r)
      | Inr (Next s') \<Rightarrow> body (i + int n) s')"
proof (induction n arbitrary: i s)
  case 0
  show ?case by (simp split: sum.splits control.splits)
next
  case (Suc n)
  show ?case
  proof (cases "body i s")
    case (Inl e)
    then show ?thesis by simp
  next
    case (Inr c)
    show ?thesis
    proof (cases c)
      case (Next s')
      have A: "for_range body (Suc (Suc n)) i s = for_range body (Suc n) (i + 1) s'"
        by (subst for_range.simps(2)) (simp add: Inr Next del: for_range.simps)
      have B: "for_range body (Suc n) i s = for_range body n (i + 1) s'"
        by (subst for_range.simps(2)) (simp add: Inr Next del: for_range.simps)
      have C: "i + 1 + int n = i + int (Suc n)" by simp
      show ?thesis
        unfolding A B Suc.IH[of "i + 1" s'] C ..
    next
      case (Return r)
      then show ?thesis using Inr by simp
    qed
  qed
qed

lemma for_range_Next_invariant:
  assumes "for_range body n i s = Inr (Next s')"
    and "P 0 s"
    and "\<And>k t t'. k < n \<Longrightarrow> P k t \<Longrightarrow> body (i + int k) t = Inr (Next t') \<Longrightarrow> P (Suc k) t'"
  shows "P n s'"
  using assms
proof (induction n arbitrary: s')
  case 0
  then show ?case by simp
next
  case (Suc n)
  from Suc.prems(1) obtain t where t: "for_range body n i s = Inr (Next t)"
    and b: "body (i + int n) t = Inr (Next s')"
    by (auto simp: for_range_snoc simp del: for_range.simps split: sum.splits control.splits)
  have "P n t"
    by (rule Suc.IH[OF t Suc.prems(2)]) (rule Suc.prems(3), auto)
  then show ?case using Suc.prems(3)[of n t s'] b by simp
qed

lemma for_range_first_Return:
  "0 < n \<Longrightarrow> body i s = Inr (Return r) \<Longrightarrow> for_range body n i s = Inr (Return r)"
  by (cases n) simp_all

lemma for_range_Return_iff:
  "for_range body n i s = Inr (Return r) \<longleftrightarrow>
     (\<exists>k t. k < n \<and> for_range body k i s = Inr (Next t) \<and> body (i + int k) t = Inr (Return r))"
proof (induction n)
  case 0
  show ?case by simp
next
  case (Suc n)
  show ?case
  proof
    assume a: "for_range body (Suc n) i s = Inr (Return r)"
    show "\<exists>k t. k < Suc n \<and> for_range body k i s = Inr (Next t) \<and> body (i + int k) t = Inr (Return r)"
    proof (cases "for_range body n i s")
      case (Inl e)
      then show ?thesis using a by (simp add: for_range_snoc del: for_range.simps)
    next
      case (Inr c)
      show ?thesis
      proof (cases c)
        case (Next t)
        then have "body (i + int n) t = Inr (Return r)"
          using a Inr by (simp add: for_range_snoc del: for_range.simps)
        then show ?thesis using Inr Next by blast
      next
        case (Return r')
        then have "r' = r" using a Inr by (simp add: for_range_snoc del: for_range.simps)
        then obtain k t where "k < n" "for_range body k i s = Inr (Next t)"
          "body (i + int k) t = Inr (Return r)"
          using Suc.IH Inr Return by blast
        then show ?thesis using less_Suc_eq by blast
      qed
    qed
  next
    assume "\<exists>k t. k < Suc n \<and> for_range body k i s = Inr (Next t) \<and> body (i + int k) t = Inr (Return r)"
    then obtain k t where k: "k < Suc n" "for_range body k i s = Inr (Next t)"
      "body (i + int k) t = Inr (Return r)" by blast
    show "for_range body (Suc n) i s = Inr (Return r)"
    proof (cases "k = n")
      case True
      then show ?thesis using k by (simp add: for_range_snoc del: for_range.simps)
    next
      case False
      then have "for_range body n i s = Inr (Return r)"
        using k Suc.IH by auto
      then show ?thesis by (simp add: for_range_snoc del: for_range.simps)
    qed
  qed
qed

subsection \<open>Schedules\<close>

lemma schedule_spec_keys:
  "schedule_spec upd a0 i =
     (if {k \<in> fst ` set upd. 0 \<le> k \<and> k \<le> i} = {} then a0
      else (case map_of upd (Max {k \<in> fst ` set upd. 0 \<le> k \<and> k \<le> i}) of
              Some v \<Rightarrow> v | None \<Rightarrow> a0))"
proof -
  have S: "set (filter (\<lambda>k. 0 \<le> k \<and> k \<le> i) (map fst upd))
      = {k \<in> fst ` set upd. 0 \<le> k \<and> k \<le> i}"
    by auto
  have E: "filter (\<lambda>k. 0 \<le> k \<and> k \<le> i) (map fst upd) = []
      \<longleftrightarrow> {k \<in> fst ` set upd. 0 \<le> k \<and> k \<le> i} = {}"
    by (auto simp: filter_empty_conv)
  show ?thesis
    unfolding schedule_spec_def Let_def E S by (rule refl)
qed

lemma alpha_trace_spec: "alpha_trace upd a0 i = schedule_spec upd a0 (int i)"
proof (induction i)
  case 0
  show ?case
  proof (cases "map_of upd 0")
    case None
    then have "0 \<notin> fst ` set upd" by (simp add: map_of_eq_None_iff)
    then have "{k \<in> fst ` set upd. 0 \<le> k \<and> k \<le> 0} = {}" by force
    then show ?thesis using None by (simp add: schedule_spec_keys schedule_update_def)
  next
    case (Some v)
    then have "0 \<in> fst ` set upd" by (metis map_of_eq_None_iff option.distinct(1))
    then have "{k \<in> fst ` set upd. 0 \<le> k \<and> k \<le> 0} = {0}" by force
    then show ?thesis using Some by (simp add: schedule_spec_keys schedule_update_def)
  qed
next
  case (Suc i)
  let ?K = "\<lambda>j. {k \<in> fst ` set upd. 0 \<le> k \<and> k \<le> j}"
  show ?case
  proof (cases "map_of upd (int (Suc i))")
    case None
    then have "int (Suc i) \<notin> fst ` set upd" by (simp add: map_of_eq_None_iff)
    then have "\<And>k. k \<in> fst ` set upd \<Longrightarrow> k \<le> int (Suc i) \<longleftrightarrow> k \<le> int i"
      by (metis int_Suc add.commute zle_add1_eq_le order_le_less)
    then have KK: "?K (int (Suc i)) = ?K (int i)"
      by blast
    have "schedule_spec upd a0 (int (Suc i)) = schedule_spec upd a0 (int i)"
      unfolding schedule_spec_keys KK by (rule refl)
    then show ?thesis using None Suc by (simp add: schedule_update_def)
  next
    case (Some v)
    then have "int (Suc i) \<in> fst ` set upd"
      by (metis map_of_eq_None_iff option.distinct(1))
    then have mem: "int (Suc i) \<in> ?K (int (Suc i))" by simp
    have fin: "finite (?K (int (Suc i)))" by simp
    have mx: "Max (?K (int (Suc i))) = int (Suc i)"
      by (rule Max_eqI[OF fin]) (use mem in auto)
    have ne: "?K (int (Suc i)) \<noteq> {}" using mem by blast
    have "schedule_spec upd a0 (int (Suc i)) = v"
      unfolding schedule_spec_keys by (simp only: ne mx Some if_False option.simps)
    then show ?thesis using Some by (simp add: schedule_update_def)
  qed
qed

subsection \<open>The step of the single-species solver\<close>

lemma map2_nth_upt:
  "length xs = n \<Longrightarrow> length ys = n \<Longrightarrow> map2 f xs ys = map (\<lambda>j. f (xs ! j) (ys ! j)) [0..<n]"
  by (rule nth_equalityI) simp_all

lemma max_abs_diff_upt:
  "length t = n \<Longrightarrow> length r = n \<Longrightarrow>
   max_abs_diff t r = np_max (map (\<lambda>j. fabs (fsub (t ! j) (r ! j))) [0..<n])"
  by (simp add: max_abs_diff_def vsub_def map2_nth_upt[of t n r fsub] o_def)

lemma sr1_step_eq:
  assumes "length (muloc a) = n" "length (log_rho_new s) = n" "length (c1_onetype a (rho s)) = n"
  shows "sr1_step a upd (validity (muloc a)) i s =
    (let al = schedule_update upd i (alpha s);
         t = target_log (validity (muloc a)) (muloc a) (c1_onetype a (rho s));
         l = vadd (smul (fsub (Fin 1) al) (log_rho s)) (smul al t)
     in Inr (\<lparr>alpha = al, log_rho_new = t, log_rho = l, rho = map fexp l\<rparr>,
             \<lparr>delta = max_abs_diff (map fexp t) (map fexp l), rho_new = map fexp t\<rparr>))"
proof -
  have v: "length (validity (muloc a)) = n" using assms by (simp add: validity_def)
  have p: "picard_update (validity (muloc a)) (muloc a) (c1_onetype a (rho s)) (log_rho_new s) al lr =
     (target_log (validity (muloc a)) (muloc a) (c1_onetype a (rho s)),
      map fexp (target_log (validity (muloc a)) (muloc a) (c1_onetype a (rho s))),
      vadd (smul (fsub (Fin 1) al) lr) (smul al (target_log (validity (muloc a)) (muloc a) (c1_onetype a (rho s)))),
      map fexp (vadd (smul (fsub (Fin 1) al) lr) (smul al (target_log (validity (muloc a)) (muloc a) (c1_onetype a (rho s))))))"
    for al lr
    by (rule picard_update_eq) (simp_all add: v assms)
  show ?thesis
    unfolding sr1_step_def Let_def p using v assms by simp
qed

lemma example_sr1_init:
  "sr1_init example_sr1 = \<lparr>alpha = Fin (1 / 2), log_rho_new = [Fin 0], log_rho = [Fin 0], rho = [Fin 1]\<rparr>"
  by (simp add: sr1_init_def example_sr1_def initial_log_rho_def validity_def zeros_def ones_def smul_def)

lemma default_onetype_0: "schedule_update alpha_updates_default_onetype 0 x = x"
  by (simp add: schedule_update_def alpha_updates_default_onetype_def)

subsection \<open>C1: one iteration of the single-species solver\<close>

text \<open>
  C1: in every iteration of the single-species solver (any index \<open>i\<close>, any state with arrays
  of the grid's length) the target log-density is the local chemical potential plus the
  evaluator's correlation at the valid positions and \<^verbatim>\<open>-inf\<close> at the others, the target
  density is its exponential, the new log-density is
  \<open>(1 - alpha) * old_log + alpha * target_log\<close> and the new density its exponential, and
  \<open>delta\<close> is the maximum over the grid of \<open>|target_density - new_density|\<close>: it is NaN exactly
  when one of these differences is, and otherwise it is one of them and none exceeds it. The
  difference is taken against the mixed density \<open>rho s'\<close>, not against the density \<open>rho s\<close> of
  the previous iterate.
\<close>

theorem C1_single_species_iteration:
  assumes "0 < n" and "length (muloc a) = n" and "length (log_rho s) = n"
    and "length (log_rho_new s) = n" and "length (c1_onetype a (rho s)) = n"
  shows "\<exists>s' d. sr1_step a upd (validity (muloc a)) i s = Inr (s', d)
     \<and> alpha s' = schedule_update upd i (alpha s)
     \<and> length (log_rho_new s') = n \<and> length (rho_new d) = n
     \<and> length (log_rho s') = n \<and> length (rho s') = n
     \<and> (\<forall>j<n. log_rho_new s' ! j =
                 (if isfinite (muloc a ! j)
                  then fadd (muloc a ! j) (c1_onetype a (rho s) ! j) else NInf)
            \<and> rho_new d ! j = fexp (log_rho_new s' ! j)
            \<and> log_rho s' ! j =
                 fadd (fmul (fsub (Fin 1) (alpha s')) (log_rho s ! j))
                      (fmul (alpha s') (log_rho_new s' ! j))
            \<and> rho s' ! j = fexp (log_rho s' ! j))
     \<and> delta d = np_max (map (\<lambda>j. fabs (fsub (rho_new d ! j) (rho s' ! j))) [0..<n])
     \<and> (isnan (delta d) \<longleftrightarrow> (\<exists>j<n. isnan (fabs (fsub (rho_new d ! j) (rho s' ! j)))))
     \<and> (\<not> isnan (delta d) \<longrightarrow>
          (\<exists>j<n. delta d = fabs (fsub (rho_new d ! j) (rho s' ! j)))
          \<and> (\<forall>j<n. \<not> flt (delta d) (fabs (fsub (rho_new d ! j) (rho s' ! j)))))"
proof -
  define al where "al = schedule_update upd i (alpha s)"
  define t where "t = target_log (validity (muloc a)) (muloc a) (c1_onetype a (rho s))"
  define l where "l = vadd (smul (fsub (Fin 1) al) (log_rho s)) (smul al t)"
  define s' :: sr1_state where "s' = \<lparr>alpha = al, log_rho_new = t, log_rho = l, rho = map fexp l\<rparr>"
  define d :: diag1 where "d = \<lparr>delta = max_abs_diff (map fexp t) (map fexp l), rho_new = map fexp t\<rparr>"
  define D where "D = map (\<lambda>j. fabs (fsub (rho_new d ! j) (rho s' ! j))) [0..<n]"
  have v: "length (validity (muloc a)) = n" using assms by (simp add: validity_def)
  have step: "sr1_step a upd (validity (muloc a)) i s = Inr (s', d)"
    using sr1_step_eq[OF assms(2,4,5), of upd i]
    by (simp add: Let_def s'_def d_def l_def t_def al_def)
  have lt: "length t = n" unfolding t_def using assms v by (simp add: length_target_log)
  have ll: "length l = n" unfolding l_def using assms lt by (simp add: length_mix)
  have pt: "log_rho_new s' ! j =
                 (if isfinite (muloc a ! j)
                  then fadd (muloc a ! j) (c1_onetype a (rho s) ! j) else NInf)
            \<and> rho_new d ! j = fexp (log_rho_new s' ! j)
            \<and> log_rho s' ! j =
                 fadd (fmul (fsub (Fin 1) (alpha s')) (log_rho s ! j))
                      (fmul (alpha s') (log_rho_new s' ! j))
            \<and> rho s' ! j = fexp (log_rho s' ! j)" if "j < n" for j
  proof -
    have "t ! j = (if isfinite (muloc a ! j) then fadd (muloc a ! j) (c1_onetype a (rho s) ! j) else NInf)"
      unfolding t_def using that assms v by (simp add: nth_target_log validity_def)
    moreover have "l ! j = fadd (fmul (fsub (Fin 1) al) (log_rho s ! j)) (fmul al (t ! j))"
      unfolding l_def using that assms lt by (simp add: nth_mix)
    ultimately show ?thesis using that lt ll by (simp add: s'_def d_def)
  qed
  have dl: "delta d = np_max D"
    unfolding D_def using lt ll by (simp add: d_def s'_def max_abs_diff_upt[of _ n])
  have Dne: "D \<noteq> []" using assms(1) by (simp add: D_def)
  have setD: "set D = (\<lambda>j. fabs (fsub (rho_new d ! j) (rho s' ! j))) ` {..<n}"
    by (auto simp: D_def)
  have nan: "isnan (delta d) \<longleftrightarrow> (\<exists>j<n. isnan (fabs (fsub (rho_new d ! j) (rho s' ! j))))"
    unfolding dl isnan_np_max[OF Dne] setD by auto
  have mx: "(\<exists>j<n. delta d = fabs (fsub (rho_new d ! j) (rho s' ! j)))
          \<and> (\<forall>j<n. \<not> flt (delta d) (fabs (fsub (rho_new d ! j) (rho s' ! j))))"
    if "\<not> isnan (delta d)"
  proof
    have "np_max D \<in> set D" by (rule np_max_mem[OF Dne])
    then show "\<exists>j<n. delta d = fabs (fsub (rho_new d ! j) (rho s' ! j))"
      unfolding dl setD by auto
    show "\<forall>j<n. \<not> flt (delta d) (fabs (fsub (rho_new d ! j) (rho s' ! j)))"
    proof (intro allI impI)
      fix j assume "j < n"
      then have "fabs (fsub (rho_new d ! j) (rho s' ! j)) \<in> set D" unfolding setD by auto
      then show "\<not> flt (delta d) (fabs (fsub (rho_new d ! j) (rho s' ! j)))"
        using np_max_ub[of D] that unfolding dl by blast
    qed
  qed
  have sh: "alpha s' = schedule_update upd i (alpha s)"
     "length (log_rho_new s') = n" "length (rho_new d) = n"
     "length (log_rho s') = n" "length (rho s') = n"
    using lt ll by (simp_all add: s'_def d_def al_def)
  show ?thesis
    by (rule exI[of _ s'], rule exI[of _ d])
       (use step sh pt dl[unfolded D_def] nan mx in blast)
qed

text \<open>At the one-point instance the target density is \<open>exp 2\<close>, the mixed density \<open>exp 1\<close>
  and \<open>delta = exp 2 - exp 1\<close>, while the distance of the target to the previous iterate is
  \<open>exp 2 - 1\<close>.\<close>

theorem C1_single_species_iteration_witness:
  "(0::nat) < 1 \<and> length (muloc example_sr1) = 1 \<and> length (log_rho (sr1_init example_sr1)) = 1
   \<and> length (log_rho_new (sr1_init example_sr1)) = 1
   \<and> length (c1_onetype example_sr1 (rho (sr1_init example_sr1))) = 1
   \<and> (\<exists>s' d. sr1_step example_sr1 (sr1_schedule example_sr1) (validity (muloc example_sr1)) 0
                 (sr1_init example_sr1) = Inr (s', d)
        \<and> rho_new d = [Fin (exp 2)] \<and> rho s' = [Fin (exp 1)]
        \<and> delta d = Fin (exp 2 - exp 1)
        \<and> max_abs_diff (rho_new d) (rho (sr1_init example_sr1)) = Fin (exp 2 - 1)
        \<and> exp 2 - exp 1 \<noteq> exp 2 - (1::real))"
proof -
  have h: "(0::nat) < 1" "length (muloc example_sr1) = 1" "length (log_rho (sr1_init example_sr1)) = 1"
    "length (log_rho_new (sr1_init example_sr1)) = 1"
    "length (c1_onetype example_sr1 (rho (sr1_init example_sr1))) = 1"
    by (simp_all add: example_sr1_init) (simp_all add: example_sr1_def)
  from C1_single_species_iteration[OF h, of "sr1_schedule example_sr1" 0]
  obtain s' d where step: "sr1_step example_sr1 (sr1_schedule example_sr1) (validity (muloc example_sr1)) 0
                 (sr1_init example_sr1) = Inr (s', d)"
    and al: "alpha s' = schedule_update (sr1_schedule example_sr1) 0 (alpha (sr1_init example_sr1))"
    and len: "length (rho_new d) = 1" "length (rho s') = 1" "length (log_rho_new s') = 1" "length (log_rho s') = 1"
    and pt: "\<forall>j<1. log_rho_new s' ! j =
                 (if isfinite (muloc example_sr1 ! j)
                  then fadd (muloc example_sr1 ! j) (c1_onetype example_sr1 (rho (sr1_init example_sr1)) ! j) else NInf)
            \<and> rho_new d ! j = fexp (log_rho_new s' ! j)
            \<and> log_rho s' ! j =
                 fadd (fmul (fsub (Fin 1) (alpha s')) (log_rho (sr1_init example_sr1) ! j))
                      (fmul (alpha s') (log_rho_new s' ! j))
            \<and> rho s' ! j = fexp (log_rho s' ! j)"
    and dl: "delta d = np_max (map (\<lambda>j. fabs (fsub (rho_new d ! j) (rho s' ! j))) [0..<1])"
    by blast
  have a: "alpha s' = Fin (1 / 2)"
    using al by (simp add: example_sr1_init) (simp add: sr1_schedule_def example_sr1_def default_onetype_0)
  have t0: "log_rho_new s' ! 0 = Fin 2"
    using pt by (simp add: example_sr1_init) (simp add: example_sr1_def)
  have n0: "rho_new d ! 0 = Fin (exp 2)" using pt t0 by simp
  have l0: "log_rho s' ! 0 = Fin 1"
    using pt t0 a by (simp add: example_sr1_init fsub_def)
  have r0: "rho s' ! 0 = Fin (exp 1)" using pt l0 by simp
  have rn: "rho_new d = [Fin (exp 2)]" using len(1) n0 by (cases "rho_new d") simp_all
  have r: "rho s' = [Fin (exp 1)]" using len(2) r0 by (cases "rho s'") simp_all
  have lt: "exp (1::real) < exp 2" by simp
  have d: "delta d = Fin (exp 2 - exp 1)"
    using dl lt by (simp add: rn r fsub_def)
  have g1: "(1::real) < exp 2" by simp
  have prev: "max_abs_diff (rho_new d) (rho (sr1_init example_sr1)) = Fin (exp 2 - 1)"
    using g1 by (simp add: rn example_sr1_init max_abs_diff_def vsub_def fsub_def)
  have ne: "exp 2 - exp 1 \<noteq> exp 2 - (1::real)" by simp
  show ?thesis using h step rn r d prev ne by blast
qed

subsection \<open>C9: mixing in log-space is geometric interpolation\<close>

lemma mix_between:
  fixes al :: real
  assumes "0 < al" "al < 1" "lo < A" "A < hi" "lo < B" "B < hi"
  shows "lo < (1 - al) * A + al * B" and "(1 - al) * A + al * B < hi"
proof -
  have "0 < (1 - al) * (A - lo) + al * (B - lo)"
    using assms by (intro add_pos_pos mult_pos_pos) simp_all
  then show "lo < (1 - al) * A + al * B" by (simp add: algebra_simps)
  have "0 < (1 - al) * (hi - A) + al * (hi - B)"
    using assms by (intro add_pos_pos mult_pos_pos) simp_all
  then show "(1 - al) * A + al * B < hi" by (simp add: algebra_simps)
qed

lemma fexp_positive:
  assumes "fexp x = Fin r" and "0 < r"
  shows "x = Fin (ln r) \<and> exp_underflow < ln r \<and> ln r < exp_overflow"
proof (cases x)
  case (Fin a)
  from fexp_Fin_cases[of a] assms show ?thesis unfolding Fin by auto
qed (use assms in simp_all)

text \<open>
  C9: at a valid position, for \<open>alpha\<close> strictly between 0 and 1, a stored log-density that is
  the logarithm of a positive old density \<open>ro\<close> and a positive target density \<open>rt\<close>, the density
  update (the same statements in every solver) yields the exponential, as \<^verbatim>\<open>np.exp\<close> returns
  it, of the logarithm of \<open>ro ^ (1 - alpha) * rt ^ alpha\<close>; that is
  \<open>ro ^ (1 - alpha) * rt ^ alpha\<close> itself for every \<open>ro\<close> in the range of the positive doubles,
  from \<open>2 ^ -1074\<close> to below \<open>2 ^ 1024\<close> (the target density, a value of \<^verbatim>\<open>np.exp\<close>, is in that
  range).
\<close>

theorem C9_log_mixing_is_geometric_interpolation:
  assumes "length buf = length valid" and "length m = length valid"
    and "length c = length valid" and "length lr = length valid"
    and "j < length valid" and "valid ! j"
    and "0 < al" and "al < 1"
    and "picard_update valid m c buf (Fin al) lr = (lrn, rn, lr', r')"
    and "lr ! j = flog (Fin ro)" and "0 < ro"
    and "rn ! j = Fin rt" and "0 < rt"
  shows "r' ! j = fexp (Fin (ln (ro powr (1 - al) * rt powr al)))
     \<and> (2 powr - 1074 \<le> ro \<and> ro < 2 powr 1024 \<longrightarrow>
           r' ! j = Fin (ro powr (1 - al) * rt powr al))"
proof -
  let ?t = "target_log valid m c"
  let ?g = "ro powr (1 - al) * rt powr al"
  have eqs: "rn = map fexp ?t" "r' = map fexp (vadd (smul (fsub (Fin 1) (Fin al)) lr) (smul (Fin al) ?t))"
    using assms(9) unfolding picard_update_eq[OF assms(1-3)] by auto
  have lt: "length ?t = length valid" using assms by (simp add: length_target_log)
  have "fexp (?t ! j) = Fin rt" using assms(12) eqs(1) lt assms(5) by simp
  from fexp_positive[OF this assms(13)]
  have tj: "?t ! j = Fin (ln rt)" and rt: "exp_underflow < ln rt" "ln rt < exp_overflow"
    by simp_all
  have lj: "lr ! j = Fin (ln ro)" using assms(10,11) by simp
  have g: "0 < ?g" using assms(11,13) by simp
  have lg: "ln ?g = (1 - al) * ln ro + al * ln rt"
    using assms(11,13) by (simp add: ln_mult ln_powr)
  have "r' ! j = fexp (fadd (fmul (fsub (Fin 1) (Fin al)) (lr ! j)) (fmul (Fin al) (?t ! j)))"
    unfolding eqs(2) using assms(4,5) lt by (simp add: nth_mix[of _ "length valid"] length_mix[of _ "length valid"])
  also have "\<dots> = fexp (Fin (ln ?g))"
    by (simp add: tj lj fsub_def lg)
  finally have 1: "r' ! j = fexp (Fin (ln ?g))" .
  have 2: "r' ! j = Fin ?g" if lo: "2 powr - 1074 \<le> ro" and hi: "ro < 2 powr 1024"
  proof -
    have "ln (2 powr - 1074) \<le> ln ro"
      using lo assms(11) by (subst ln_le_cancel_iff) simp_all
    then have a: "exp_underflow < ln ro"
      using ln2_lower by (simp add: ln_powr exp_underflow_def)
    have "ln ro < ln (2 powr 1024)"
      using hi assms(11) by (subst ln_less_cancel_iff) simp_all
    moreover have "ln ((2::real) powr 1024) = 1024 * ln 2"
      by (subst ln_powr) simp_all
    ultimately have b: "ln ro < exp_overflow"
      by (simp only: exp_overflow_def)
    from mix_between[OF assms(7,8) a b rt]
    have "exp_underflow < ln ?g" "ln ?g < exp_overflow" unfolding lg by simp_all
    then have "fexp (Fin (ln ?g)) = Fin (exp (ln ?g))" by (rule fexp_Fin_between)
    then show ?thesis using 1 g by simp
  qed
  show ?thesis using 1 2 by blast
qed

theorem C9_log_mixing_is_geometric_interpolation_witness:
  "length [Fin 0] = length [True] \<and> (0::nat) < length [True] \<and> [True] ! 0
   \<and> (0::real) < 1 / 2 \<and> (1 / 2 :: real) < 1
   \<and> [flog (Fin 4)] ! 0 = flog (Fin 4) \<and> (0::real) < 4 \<and> (0::real) < 1
   \<and> 2 powr - 1074 \<le> (4::real) \<and> (4::real) < 2 powr 1024
   \<and> snd (snd (snd (picard_update [True] [Fin 0] [Fin 0] [Fin 0] (Fin (1 / 2)) [flog (Fin 4)]))) ! 0
       = Fin (4 powr (1 - 1 / 2) * 1 powr (1 / 2))"
proof -
  let ?p = "picard_update [True] [Fin 0] [Fin 0] [Fin 0] (Fin (1 / 2)) [flog (Fin 4)]"
  have h1: "length [Fin 0] = length [True]" by simp
  have h4: "length [flog (Fin 4)] = length [True]" by simp
  have h5: "(0::nat) < length [True]" by simp
  have h6: "[True] ! 0" by simp
  have h7: "(0::real) < 1 / 2" and h8: "(1 / 2 :: real) < 1" by simp_all
  have h9: "?p = (fst ?p, fst (snd ?p), fst (snd (snd ?p)), snd (snd (snd ?p)))" by simp
  have h10: "[flog (Fin 4)] ! 0 = flog (Fin 4)" by simp
  have h11: "(0::real) < 4" and h13: "(0::real) < 1" by simp_all
  have h12: "fst (snd ?p) ! 0 = Fin 1"
    by (simp add: picard_update_def Let_def vadd_def smul_def)
  have "(2::real) powr - 1074 \<le> 2 powr 0"
    by (rule powr_mono) simp_all
  then have r1: "2 powr - 1074 \<le> (4::real)" by simp
  have r2: "(4::real) < 2 powr 1024" by simp
  have "snd (snd (snd ?p)) ! 0 = Fin (4 powr (1 - 1 / 2) * 1 powr (1 / 2))"
    using C9_log_mixing_is_geometric_interpolation[OF h1 h1 h1 h4 h5 h6 h7 h8 h9 h10 h11 h12 h13]
      r1 r2 by blast
  with h1 h5 h6 h7 h8 h10 h11 h13 r1 r2 show ?thesis by blast
qed

subsection \<open>C3: the secondary threshold against the default tolerance\<close>

text \<open>
  C3, as claimed: the fixed secondary threshold of the two-phase switch is strictly smaller
  than the default density tolerance of the long-range solver. The code compares with
  \<^verbatim>\<open>1e-2\<close> and defaults the tolerance to \<^verbatim>\<open>1e-5\<close>, so the claimed order fails.
\<close>

theorem C3_threshold_not_tighter:
  "\<not> flt secondary_threshold LR_default_tolerance"
  by (simp add: secondary_threshold_def LR_default_tolerance_def)

text \<open>
  C3, amended: the secondary threshold is strictly larger (looser) than the default density
  tolerance of the long-range solver.
\<close>

theorem C3_threshold_looser_than_default_tolerance:
  "flt LR_default_tolerance secondary_threshold"
  by (simp add: secondary_threshold_def LR_default_tolerance_def)

subsection \<open>The raw charge density against the standalone one\<close>

lemma ccd_Fin:
  assumes "length r = length x" and "l \<noteq> 0"
  shows "calculate_charge_density (map Fin r) (Fin q) (Fin l) (map Fin x)
        = Inr (map Fin (map (\<lambda>v. v * q - rtrapz r x * q / l) r))"
  using assms by (simp add: calculate_charge_density_def np_trapz_Fin fsub_def o_def)

lemma lr_charge_Fin:
  "length rO = length rH \<Longrightarrow>
   lr_charge_density (map Fin rO) (Fin qO) (map Fin rH) (Fin qH)
     = map Fin (map2 (\<lambda>u v. u * qO + v * qH) rO rH)"
  by (simp add: lr_charge_density_def vadd_def muls_def zip_map_map o_def split_def)

lemma charge_density_background:
  assumes "length rH = length x" and "length rO = length x" and "x \<noteq> []" and "l \<noteq> 0"
  shows "\<exists>cH cO NH NO.
      calculate_charge_density (map Fin rH) (Fin qH) (Fin l) (map Fin x) = Inr cH
    \<and> calculate_charge_density (map Fin rO) (Fin qO) (Fin l) (map Fin x) = Inr cO
    \<and> np_trapz (map Fin rH) (map Fin x) = Inr NH
    \<and> np_trapz (map Fin rO) (map Fin x) = Inr NO
    \<and> (\<forall>j<length x.
          lr_charge_density (map Fin rO) (Fin qO) (map Fin rH) (Fin qH) ! j
            = fadd (fmul (Fin (rO ! j)) (Fin qO)) (fmul (Fin (rH ! j)) (Fin qH))
        \<and> lr_charge_density (map Fin rO) (Fin qO) (map Fin rH) (Fin qH) ! j
            = fadd (fadd (cO ! j) (cH ! j))
                   (fadd (fdiv (fmul NO (Fin qO)) (Fin l)) (fdiv (fmul NH (Fin qH)) (Fin l))))
    \<and> (lr_charge_density (map Fin rO) (Fin qO) (map Fin rH) (Fin qH) = vadd cO cH
         \<longleftrightarrow> fadd (fmul NO (Fin qO)) (fmul NH (Fin qH)) = Fin 0)"
proof -
  define bH where "bH = rtrapz rH x * qH / l"
  define bO where "bO = rtrapz rO x * qO / l"
  define cH where "cH = map Fin (map (\<lambda>v. v * qH - bH) rH)"
  define cO where "cO = map Fin (map (\<lambda>v. v * qO - bO) rO)"
  let ?lr = "lr_charge_density (map Fin rO) (Fin qO) (map Fin rH) (Fin qH)"
  have len: "length rO = length rH" using assms by simp
  have n: "0 < length x" using assms(3) by simp
  have 1: "calculate_charge_density (map Fin rH) (Fin qH) (Fin l) (map Fin x) = Inr cH"
    unfolding cH_def bH_def by (rule ccd_Fin[OF assms(1,4)])
  have 2: "calculate_charge_density (map Fin rO) (Fin qO) (Fin l) (map Fin x) = Inr cO"
    unfolding cO_def bO_def by (rule ccd_Fin[OF assms(2,4)])
  have 3: "np_trapz (map Fin rH) (map Fin x) = Inr (Fin (rtrapz rH x))"
    by (rule np_trapz_Fin[OF assms(1)])
  have 4: "np_trapz (map Fin rO) (map Fin x) = Inr (Fin (rtrapz rO x))"
    by (rule np_trapz_Fin[OF assms(2)])
  have lr: "?lr = map Fin (map2 (\<lambda>u v. u * qO + v * qH) rO rH)"
    by (rule lr_charge_Fin[OF len])
  have sum: "vadd cO cH = map Fin (map2 (\<lambda>u v. u * qO + v * qH - (bO + bH)) rO rH)"
    unfolding cO_def cH_def vadd_def
    by (simp add: zip_map_map o_def split_def algebra_simps)
  have 5: "?lr ! j = fadd (fmul (Fin (rO ! j)) (Fin qO)) (fmul (Fin (rH ! j)) (Fin qH))
        \<and> ?lr ! j = fadd (fadd (cO ! j) (cH ! j))
                   (fadd (fdiv (fmul (Fin (rtrapz rO x)) (Fin qO)) (Fin l))
                         (fdiv (fmul (Fin (rtrapz rH x)) (Fin qH)) (Fin l)))"
    if "j < length x" for j
    using that assms by (simp add: lr cO_def cH_def bO_def bH_def)
  have 6: "?lr = vadd cO cH \<longleftrightarrow>
      fadd (fmul (Fin (rtrapz rO x)) (Fin qO)) (fmul (Fin (rtrapz rH x)) (Fin qH)) = Fin 0"
  proof
    assume "?lr = vadd cO cH"
    then have "?lr ! 0 = vadd cO cH ! 0" by simp
    then have "bO + bH = 0"
      unfolding lr sum using n assms by simp
    then have "(rtrapz rO x * qO + rtrapz rH x * qH) / l = 0"
      by (simp add: bO_def bH_def add_divide_distrib)
    then show "fadd (fmul (Fin (rtrapz rO x)) (Fin qO)) (fmul (Fin (rtrapz rH x)) (Fin qH)) = Fin 0"
      using assms(4) by simp
  next
    assume "fadd (fmul (Fin (rtrapz rO x)) (Fin qO)) (fmul (Fin (rtrapz rH x)) (Fin qH)) = Fin 0"
    then have "rtrapz rO x * qO + rtrapz rH x * qH = 0" by simp
    then have "bO + bH = 0"
      by (simp add: bO_def bH_def add_divide_distrib[symmetric])
    then show "?lr = vadd cO cH" unfolding lr sum by simp
  qed
  show ?thesis
    by (rule exI[of _ cH], rule exI[of _ cO], rule exI[of _ "Fin (rtrapz rH x)"],
        rule exI[of _ "Fin (rtrapz rO x)"])
       (use 1 2 3 4 5 6 in blast)
qed

subsection \<open>Steps and bodies of the solvers\<close>

lemma sr1_step_inv:
  assumes "sr1_step a upd valid i s = Inr (s', d)"
  shows "length (c1_onetype a (rho s)) = length valid
    \<and> picard_update valid (muloc a) (c1_onetype a (rho s)) (log_rho_new s) (alpha s') (log_rho s)
        = (log_rho_new s', rho_new d, log_rho s', rho s')
    \<and> alpha s' = schedule_update upd i (alpha s)
    \<and> delta d = max_abs_diff (rho_new d) (rho s')"
  using assms
  unfolding sr1_step_def Let_def split_def
  by (auto split: if_splits)

lemma sr2_step_inv:
  assumes "sr2_step a upd vH vO i s = Inr (s', d)"
  shows "length (fst (c1_twotype a (rho_H s) (rho_O s))) = length vH
    \<and> length (snd (c1_twotype a (rho_H s) (rho_O s))) = length vO
    \<and> picard_update vH (muloc_H a) (fst (c1_twotype a (rho_H s) (rho_O s))) (log_rho_H_new s)
         (alpha s') (log_rho_H s) = (log_rho_H_new s', rho_H_new d, log_rho_H s', rho_H s')
    \<and> picard_update vO (muloc_O a) (snd (c1_twotype a (rho_H s) (rho_O s))) (log_rho_O_new s)
         (alpha s') (log_rho_O s) = (log_rho_O_new s', rho_O_new d, log_rho_O s', rho_O s')
    \<and> alpha s' = schedule_update upd i (alpha s)
    \<and> rho_H s' \<noteq> [] \<and> rho_O s' \<noteq> []
    \<and> delta d = py_max (max_abs_diff (rho_H_new d) (rho_H s'))
                  (max_abs_diff (rho_O_new d) (rho_O s'))"
  using assms
  unfolding sr2_step_def Let_def split_def
  by (auto split: if_splits)

lemma lr_step_inv:
  assumes "lr_step a upd upd_r vH vO pre muH muO i s = Inr (s', d)"
  shows "\<exists>cH cO diff.
      corrected_c1 (fst (c1_twotype a (rho_H s) (rho_O s))) muH (q_H a) (delta_phi s) = Inr cH
    \<and> corrected_c1 (snd (c1_twotype a (rho_H s) (rho_O s))) muO (q_O a) (delta_phi s) = Inr cO
    \<and> length cH = length vH \<and> length cO = length vO
    \<and> picard_update vH (muloc_H a) cH (log_rho_H_new s) (alpha s') (log_rho_H s)
        = (log_rho_H_new s', rho_H_new d, log_rho_H s', rho_H s')
    \<and> picard_update vO (muloc_O a) cO (log_rho_O_new s) (alpha s') (log_rho_O s)
        = (log_rho_O_new s', rho_O_new d, log_rho_O s', rho_O s')
    \<and> alpha s' = schedule_update upd i (alpha s)
    \<and> alpha_restr s' = schedule_update upd_r i (alpha_restr s)
    \<and> charge_density d = lr_charge_density (rho_O s') (q_O a) (rho_H s') (q_H a)
    \<and> kbins s' = fst (fourier_transform (lmft_utils a) (zbins a) (charge_density d) (kbins s))
    \<and> delta_phi_new d =
        muls (map fneg
                (restructure_electrostatic_potential (lmft_utils a)
                   (snd (fourier_transform (lmft_utils a) (zbins a) (charge_density d) (kbins s)))
                   (kbins s') (zbins a) (kappa_inv a)))
          pre
    \<and> delta d = py_max (max_abs_diff (rho_H_new d) (rho_H s'))
                  (max_abs_diff (rho_O_new d) (rho_O s'))
    \<and> np_bin fsub (delta_phi_new d) (delta_phi s) = Inr diff \<and> diff \<noteq> []
    \<and> delta_restr d = np_max (map fabs diff)
    \<and> update_delta_phi (delta d) (delta_restr d) (tolerance_restr a) (alpha_restr s')
         (delta_phi s) (delta_phi_new d) = Inr (delta_phi s')"
  using assms
  unfolding lr_step_def Let_def split_def
  by (auto split: sum.splits if_splits)

lemma lr_step_eq:
  assumes "corrected_c1 (fst (c1_twotype a (rho_H s) (rho_O s))) muH (q_H a) (delta_phi s) = Inr cH"
    and "corrected_c1 (snd (c1_twotype a (rho_H s) (rho_O s))) muO (q_O a) (delta_phi s) = Inr cO"
    and "length cH = length vH" and "length cO = length vO"
  shows "lr_step a upd upd_r vH vO pre muH muO i s =
    (let al = schedule_update upd i (alpha s);
         ar = schedule_update upd_r i (alpha_restr s);
         pH = picard_update vH (muloc_H a) cH (log_rho_H_new s) al (log_rho_H s);
         pO = picard_update vO (muloc_O a) cO (log_rho_O_new s) al (log_rho_O s);
         charge = lr_charge_density (snd (snd (snd pO))) (q_O a) (snd (snd (snd pH))) (q_H a);
         ft = fourier_transform (lmft_utils a) (zbins a) charge (kbins s);
         phi_new =
           muls (map fneg
                   (restructure_electrostatic_potential (lmft_utils a) (snd ft) (fst ft)
                      (zbins a) (kappa_inv a)))
             pre;
         dlt = py_max (max_abs_diff (fst (snd pH)) (snd (snd (snd pH))))
                 (max_abs_diff (fst (snd pO)) (snd (snd (snd pO))))
     in case np_bin fsub phi_new (delta_phi s) of
          Inl e \<Rightarrow> Inl e
        | Inr diff \<Rightarrow>
            if diff = [] then Inl ValueError
            else
              (case update_delta_phi dlt (np_max (map fabs diff)) (tolerance_restr a) ar
                      (delta_phi s) phi_new of
                 Inl e \<Rightarrow> Inl e
               | Inr phi' \<Rightarrow>
                   Inr (\<lparr>alpha = al, log_rho_H_new = fst pH, log_rho_O_new = fst pO,
                         log_rho_H = fst (snd (snd pH)), log_rho_O = fst (snd (snd pO)),
                         rho_H = snd (snd (snd pH)), rho_O = snd (snd (snd pO)),
                         alpha_restr = ar, delta_phi = phi', kbins = fst ft\<rparr>,
                        \<lparr>delta = dlt, rho_H_new = fst (snd pH), rho_O_new = fst (snd pO),
                         charge_density = charge, delta_phi_new = phi_new,
                         delta_restr = np_max (map fabs diff)\<rparr>)))"
  unfolding lr_step_def Let_def split_def
  by (simp only: assms sum.case simp_thms if_False)

lemma update_delta_phi_total:
  assumes "length phi_new = length phi"
  shows "\<exists>p. update_delta_phi dl dr tol ar phi phi_new = Inr p
     \<and> (\<not> (flt dl secondary_threshold \<and> fgt dr tol) \<longrightarrow> p = phi_new)"
  using assms by (simp add: update_delta_phi_def np_bin_def smul_def)

lemma lr_step_alpha_restr_irrelevant:
  assumes st: "lr_step a upd upd_r vH vO pre muH muO i s = Inr (s', d)"
    and len: "length (delta_phi_new d) = length (delta_phi s)"
  shows "\<exists>s2. lr_step a upd upd_r2 vH vO pre muH muO i (s\<lparr>alpha_restr := x\<rparr>) = Inr (s2, d)
     \<and> (\<not> (flt (delta d) secondary_threshold \<and> fgt (delta_restr d) (tolerance_restr a))
          \<longrightarrow> delta_phi s2 = delta_phi s')"
proof -
  from lr_step_inv[OF st] obtain cH cO diff where
    c: "corrected_c1 (fst (c1_twotype a (rho_H s) (rho_O s))) muH (q_H a) (delta_phi s) = Inr cH"
       "corrected_c1 (snd (c1_twotype a (rho_H s) (rho_O s))) muO (q_O a) (delta_phi s) = Inr cO"
       "length cH = length vH" "length cO = length vO"
    and pH: "picard_update vH (muloc_H a) cH (log_rho_H_new s) (alpha s') (log_rho_H s)
        = (log_rho_H_new s', rho_H_new d, log_rho_H s', rho_H s')"
    and pO: "picard_update vO (muloc_O a) cO (log_rho_O_new s) (alpha s') (log_rho_O s)
        = (log_rho_O_new s', rho_O_new d, log_rho_O s', rho_O s')"
    and al: "alpha s' = schedule_update upd i (alpha s)"
    and ch: "charge_density d = lr_charge_density (rho_O s') (q_O a) (rho_H s') (q_H a)"
    and kb: "kbins s' = fst (fourier_transform (lmft_utils a) (zbins a) (charge_density d) (kbins s))"
    and pn: "delta_phi_new d =
        muls (map fneg
                (restructure_electrostatic_potential (lmft_utils a)
                   (snd (fourier_transform (lmft_utils a) (zbins a) (charge_density d) (kbins s)))
                   (kbins s') (zbins a) (kappa_inv a)))
          pre"
    and dl: "delta d = py_max (max_abs_diff (rho_H_new d) (rho_H s'))
                  (max_abs_diff (rho_O_new d) (rho_O s'))"
    and df: "np_bin fsub (delta_phi_new d) (delta_phi s) = Inr diff" "diff \<noteq> []"
    and dr: "delta_restr d = np_max (map fabs diff)"
    and up: "update_delta_phi (delta d) (delta_restr d) (tolerance_restr a) (alpha_restr s')
         (delta_phi s) (delta_phi_new d) = Inr (delta_phi s')"
    by blast
  let ?t = "s\<lparr>alpha_restr := x\<rparr>"
  let ?ar = "schedule_update upd_r2 i x"
  have c': "corrected_c1 (fst (c1_twotype a (rho_H ?t) (rho_O ?t))) muH (q_H a) (delta_phi ?t) = Inr cH"
       "corrected_c1 (snd (c1_twotype a (rho_H ?t) (rho_O ?t))) muO (q_O a) (delta_phi ?t) = Inr cO"
    using c by simp_all
  from update_delta_phi_total[OF len, of "delta d" "delta_restr d" "tolerance_restr a" ?ar]
  obtain p where p: "update_delta_phi (delta d) (delta_restr d) (tolerance_restr a) ?ar
        (delta_phi s) (delta_phi_new d) = Inr p"
    and pu: "\<not> (flt (delta d) secondary_threshold \<and> fgt (delta_restr d) (tolerance_restr a))
       \<longrightarrow> p = delta_phi_new d"
    by blast
  have same: "\<not> (flt (delta d) secondary_threshold \<and> fgt (delta_restr d) (tolerance_restr a))
       \<longrightarrow> delta_phi s' = delta_phi_new d"
    using up by (auto simp: update_delta_phi_def)
  define s2 where "s2 = s'\<lparr>alpha_restr := ?ar, delta_phi := p\<rparr>"
  have pH': "picard_update vH (muloc_H a) cH (log_rho_H_new s) (schedule_update upd i (alpha s)) (log_rho_H s)
        = (log_rho_H_new s', rho_H_new d, log_rho_H s', rho_H s')"
    using pH al by simp
  have pO': "picard_update vO (muloc_O a) cO (log_rho_O_new s) (schedule_update upd i (alpha s)) (log_rho_O s)
        = (log_rho_O_new s', rho_O_new d, log_rho_O s', rho_O s')"
    using pO al by simp
  have "lr_step a upd upd_r2 vH vO pre muH muO i ?t = Inr (s2, d)"
    unfolding lr_step_eq[OF c' c(3,4)] Let_def
    by (simp add: pH' pO' ch[symmetric] kb[symmetric] pn[symmetric] dl[symmetric] df
        dr[symmetric] p s2_def al)
  moreover have "delta_phi s2 = p" by (simp add: s2_def)
  ultimately show ?thesis using pu same by auto
qed

lemma sr1_body_Next:
  "sr1_body a upd valid i s = Inr (Next s') \<Longrightarrow> \<exists>d. sr1_step a upd valid i s = Inr (s', d)"
  unfolding sr1_body_def Let_def by (auto split: sum.splits if_splits)

lemma sr1_body_success:
  "sr1_body a upd valid i s = Inr (Return (Some z, Some r)) \<Longrightarrow>
     \<exists>s' d. sr1_step a upd valid i s = Inr (s', d) \<and> z = zbins a \<and> r = rho s'"
  unfolding sr1_body_def Let_def by (auto split: sum.splits if_splits)

lemma sr2_body_Next:
  "sr2_body a upd vH vO i s = Inr (Next s') \<Longrightarrow> \<exists>d. sr2_step a upd vH vO i s = Inr (s', d)"
  unfolding sr2_body_def Let_def by (auto split: sum.splits if_splits)

lemma sr2_body_success:
  "sr2_body a upd vH vO i s = Inr (Return (Some z, Some rH, Some rO)) \<Longrightarrow>
     \<exists>s' d. sr2_step a upd vH vO i s = Inr (s', d) \<and> z = zbins a \<and> rH = rho_H s' \<and> rO = rho_O s'"
  unfolding sr2_body_def Let_def by (auto split: sum.splits if_splits)

lemma lr_body_Next:
  "lr_body a upd upd_r vH vO pre muH muO i s = Inr (Next s'') \<Longrightarrow>
     \<exists>s' d. lr_step a upd upd_r vH vO pre muH muO i s = Inr (s', d)
        \<and> alpha s'' = alpha s' \<and> alpha_restr s'' = alpha_restr s'
        \<and> log_rho_H_new s'' = log_rho_H_new s' \<and> log_rho_O_new s'' = log_rho_O_new s'
        \<and> log_rho_H s'' = log_rho_H s' \<and> log_rho_O s'' = log_rho_O s'
        \<and> rho_H s'' = rho_H s' \<and> rho_O s'' = rho_O s' \<and> delta_phi s'' = delta_phi s'"
  unfolding lr_body_def Let_def
  by (auto split: sum.splits if_splits)

lemma lr_body_coefficients:
  assumes "lr_body a upd upd_r vH vO pre muH muO i s = Inr (Next s'')"
  shows "alpha s'' = schedule_update upd i (alpha s)"
    and "alpha_restr s'' = schedule_update upd_r i (alpha_restr s)"
proof -
  from lr_body_Next[OF assms] obtain s' d where
    st: "lr_step a upd upd_r vH vO pre muH muO i s = Inr (s', d)"
    and eq: "alpha s'' = alpha s'" "alpha_restr s'' = alpha_restr s'"
    by blast
  from lr_step_inv[OF st] have "alpha s' = schedule_update upd i (alpha s)"
    "alpha_restr s' = schedule_update upd_r i (alpha_restr s)" by blast+
  then show "alpha s'' = schedule_update upd i (alpha s)"
    and "alpha_restr s'' = schedule_update upd_r i (alpha_restr s)"
    using eq by simp_all
qed

lemma lr_body_success_iff:
  assumes "print_every a \<noteq> 0" and "plot a \<longrightarrow> plot_every a \<noteq> 0"
  shows "lr_body a upd upd_r vH vO pre muH muO i s = Inr (Return (Some z, Some rH, Some rO)) \<longleftrightarrow>
     (\<exists>s' d. lr_step a upd upd_r vH vO pre muH muO i s = Inr (s', d)
        \<and> flt (delta d) (tolerance a) \<and> flt (delta_restr d) (tolerance_restr a)
        \<and> z = zbins a \<and> rH = rho_H s' \<and> rO = rho_O s')"
  using assms
  unfolding lr_body_def Let_def
  by (auto split: sum.splits if_splits dest: flt_not_nan)

lemma lr_body_outcomes:
  assumes "lr_body a upd upd_r vH vO pre muH muO i s = Inr (Return r)"
  shows "r = (None, None, None) \<or> (\<exists>rH rO. r = (Some (zbins a), Some rH, Some rO))"
  using assms
  unfolding lr_body_def Let_def
  by (auto split: sum.splits if_splits)

lemma loop_coefficient:
  assumes step: "\<And>k t t'. body (int k) t = Inr (Next t') \<Longrightarrow> f t' = schedule_update upd (int k) (f t)"
    and run: "for_range body i 0 s0 = Inr (Next s)"
  shows "schedule_update upd (int i) (f s) = alpha_trace upd (f s0) i"
proof -
  let ?P = "\<lambda>k t. f t = (case k of 0 \<Rightarrow> f s0 | Suc j \<Rightarrow> alpha_trace upd (f s0) j)"
  have "?P i s"
  proof (rule for_range_Next_invariant[where P = ?P, OF run])
    show "?P 0 s0" by simp
  next
    fix k t t'
    assume "?P k t" and "body (0 + int k) t = Inr (Next t')"
    then show "?P (Suc k) t'"
      using step[of k t t'] by (cases k) auto
  qed
  then show ?thesis by (cases i) auto
qed

subsection \<open>The instances of the long-range solver\<close>

lemma example_lr_mu:
  "mu_correction (phys example_lr) (fabs (q_H example_lr)) (kappa_inv example_lr) (temp example_lr) = Inr (Fin 0)"
  "mu_correction (phys example_lr) (fabs (q_O example_lr)) (kappa_inv example_lr) (temp example_lr) = Inr (Fin 0)"
  by (simp_all add: example_lr_def mu_correction_def Let_def)

lemma example_lr_init:
  "lr_init example_lr = \<lparr>alpha = Fin (1 / 2), log_rho_H_new = [Fin 0, Fin 0],
     log_rho_O_new = [Fin 0, Fin 0], log_rho_H = [Fin 0, Fin 0], log_rho_O = [Fin 0, Fin 0],
     rho_H = [Fin 1, Fin 1], rho_O = [Fin 1, Fin 1], alpha_restr = Fin (1 / 100),
     delta_phi = [Fin 0, Fin 0], kbins = ()\<rparr>"
  by (simp add: lr_init_def sr2_init_def example_lr_def initial_log_rho_def validity_def
      zeros_def ones_def smul_def numeral_2_eq_2)

lemma example_lr_step:
  "lr_step_of example_lr (Fin 0) (Fin 0) 0 (lr_init example_lr) =
     Inr (\<lparr>alpha = Fin (1 / 2), log_rho_H_new = [Fin 0, Fin 0],
            log_rho_O_new = [Fin 0, Fin 0], log_rho_H = [Fin 0, Fin 0],
            log_rho_O = [Fin 0, Fin 0], rho_H = [Fin 1, Fin 1], rho_O = [Fin 1, Fin 1],
            alpha_restr = Fin (1 / 100), delta_phi = [Fin 0, Fin 0], kbins = ()\<rparr>,
          \<lparr>delta = Fin 0, rho_H_new = [Fin 1, Fin 1], rho_O_new = [Fin 1, Fin 1],
            charge_density = [Fin 0, Fin 0], delta_phi_new = [Fin 0, Fin 0],
            delta_restr = Fin 0\<rparr>)"
  unfolding example_lr_init
  by (simp add: lr_step_of_def lr_step_def example_lr_def sr2_schedule_def lr_schedule_restr_def
      schedule_update_def alpha_updates_default_twotype_def alpha_restr_updates_default_def
      validity_def corrected_c1_def np_bin_def smul_def ones_def numeral_2_eq_2 fsub_def
      picard_update_def vadd_def Let_def lr_charge_density_def muls_def max_abs_diff_def
      vsub_def py_max_def fgt_def np_maximum_def update_delta_phi_def secondary_threshold_def)

lemma example_lr_damped_init:
  "lr_init example_lr_damped = \<lparr>alpha = Fin (1 / 2), log_rho_H_new = [Fin 0, Fin 0],
     log_rho_O_new = [Fin 0, Fin 0], log_rho_H = [Fin 0, Fin 0], log_rho_O = [Fin 0, Fin 0],
     rho_H = [Fin 1, Fin 1], rho_O = [Fin 1, Fin 1], alpha_restr = Fin (1 / 100),
     delta_phi = [Fin 0, Fin 0], kbins = ()\<rparr>"
  by (simp add: lr_init_def sr2_init_def example_lr_damped_def example_lr_def initial_log_rho_def
      validity_def zeros_def ones_def smul_def numeral_2_eq_2)

lemma example_lr_damped_step:
  "lr_step_of example_lr_damped (Fin 0) (Fin 0) 0 (lr_init example_lr_damped) =
     Inr (\<lparr>alpha = Fin (1 / 2), log_rho_H_new = [Fin 0, Fin 0],
            log_rho_O_new = [Fin 0, Fin 0], log_rho_H = [Fin 0, Fin 0],
            log_rho_O = [Fin 0, Fin 0], rho_H = [Fin 1, Fin 1], rho_O = [Fin 1, Fin 1],
            alpha_restr = Fin (1 / 100), delta_phi = [Fin (- (1 / 100)), Fin (- (1 / 100))],
            kbins = ()\<rparr>,
          \<lparr>delta = Fin 0, rho_H_new = [Fin 1, Fin 1], rho_O_new = [Fin 1, Fin 1],
            charge_density = [Fin 0, Fin 0], delta_phi_new = [Fin (- 1), Fin (- 1)],
            delta_restr = Fin 1\<rparr>)"
  unfolding example_lr_damped_init
  by (simp add: lr_step_of_def lr_step_def example_lr_damped_def example_lr_def sr2_schedule_def
      lr_schedule_restr_def
      schedule_update_def alpha_updates_default_twotype_def alpha_restr_updates_default_def
      validity_def corrected_c1_def np_bin_def smul_def ones_def numeral_2_eq_2 fsub_def
      picard_update_def vadd_def Let_def lr_charge_density_def muls_def max_abs_diff_def
      vsub_def py_max_def fgt_def np_maximum_def update_delta_phi_def secondary_threshold_def)

lemma example_lr_charged_init:
  "lr_init example_lr_charged = \<lparr>alpha = Fin (1 / 2), log_rho_H_new = [Fin 0, Fin 0],
     log_rho_O_new = [Fin 0, Fin 0], log_rho_H = [Fin 0, Fin 0], log_rho_O = [Fin 0, Fin 0],
     rho_H = [Fin 1, Fin 1], rho_O = [Fin 1, Fin 1], alpha_restr = Fin (1 / 100),
     delta_phi = [Fin 0, Fin 0], kbins = ()\<rparr>"
  by (simp add: lr_init_def sr2_init_def example_lr_charged_def example_lr_def
      initial_log_rho_def validity_def zeros_def ones_def smul_def numeral_2_eq_2)

lemma example_lr_charged_step:
  "lr_step_of example_lr_charged (Fin 0) (Fin 0) 0 (lr_init example_lr_charged) =
     Inr (\<lparr>alpha = Fin (1 / 2), log_rho_H_new = [Fin 0, Fin 0],
            log_rho_O_new = [Fin 0, Fin 0], log_rho_H = [Fin 0, Fin 0],
            log_rho_O = [Fin 0, Fin 0], rho_H = [Fin 1, Fin 1], rho_O = [Fin 1, Fin 1],
            alpha_restr = Fin (1 / 100), delta_phi = [Fin (1 / 100), Fin (1 / 100)],
            kbins = ()\<rparr>,
          \<lparr>delta = Fin 0, rho_H_new = [Fin 1, Fin 1], rho_O_new = [Fin 1, Fin 1],
            charge_density = [Fin (- 1), Fin (- 1)], delta_phi_new = [Fin 1, Fin 1],
            delta_restr = Fin 1\<rparr>)"
  unfolding example_lr_charged_init
  by (simp add: lr_step_of_def lr_step_def example_lr_charged_def example_lr_def
      sr2_schedule_def lr_schedule_restr_def
      schedule_update_def alpha_updates_default_twotype_def alpha_restr_updates_default_def
      validity_def corrected_c1_def np_bin_def smul_def ones_def numeral_2_eq_2 fsub_def
      picard_update_def vadd_def Let_def lr_charge_density_def muls_def max_abs_diff_def
      vsub_def py_max_def fgt_def np_maximum_def update_delta_phi_def secondary_threshold_def)

subsection \<open>C10: the charge density of the long-range solver against the standalone one\<close>



subsection \<open>C2: the two-phase update of the restructuring potential\<close>

text \<open>
  C2: in every iteration of the long-range solver that does not raise, with the target
  potential of the length of the current one, \<open>delta\<close> is the joint density delta of that
  iteration and \<open>delta_restr\<close> the maximum over the grid of
  \<open>|target_potential - current_potential|\<close>. When \<open>delta\<close> is below the secondary threshold and
  \<open>delta_restr\<close> exceeds \<^verbatim>\<open>tolerance_restr\<close> the new potential is, position by position,
  \<open>(1 - alpha_restr) * old + alpha_restr * target\<close>; in every other case (a NaN comparison
  included) it is the target itself. The diagnostics of the iteration do not depend on
  \<open>alpha_restr\<close> or its schedule, and neither does the new potential in the undamped case.
\<close>

theorem C2_two_phase_potential_update:
  assumes "lr_step a upd upd_r vH vO pre muH muO i s = Inr (s', d)"
    and "length (delta_phi_new d) = length (delta_phi s)"
  shows "delta d = py_max (max_abs_diff (rho_H_new d) (rho_H s'))
                     (max_abs_diff (rho_O_new d) (rho_O s'))
     \<and> delta_restr d =
         np_max (map (\<lambda>j. fabs (fsub (delta_phi_new d ! j) (delta_phi s ! j)))
                   [0..<length (delta_phi s)])
     \<and> (flt (delta d) secondary_threshold \<and> fgt (delta_restr d) (tolerance_restr a) \<longrightarrow>
          length (delta_phi s') = length (delta_phi s)
          \<and> (\<forall>j<length (delta_phi s).
                delta_phi s' ! j =
                  fadd (fmul (fsub (Fin 1) (alpha_restr s')) (delta_phi s ! j))
                       (fmul (alpha_restr s') (delta_phi_new d ! j))))
     \<and> (\<not> (flt (delta d) secondary_threshold \<and> fgt (delta_restr d) (tolerance_restr a)) \<longrightarrow>
          delta_phi s' = delta_phi_new d)
     \<and> (\<forall>x upd_r2. \<exists>s2.
          lr_step a upd upd_r2 vH vO pre muH muO i (s\<lparr>alpha_restr := x\<rparr>) = Inr (s2, d)
          \<and> (\<not> (flt (delta d) secondary_threshold \<and> fgt (delta_restr d) (tolerance_restr a))
               \<longrightarrow> delta_phi s2 = delta_phi s'))"
proof -
  from lr_step_inv[OF assms(1)] obtain diff where
    dl: "delta d = py_max (max_abs_diff (rho_H_new d) (rho_H s'))
                  (max_abs_diff (rho_O_new d) (rho_O s'))"
    and df: "np_bin fsub (delta_phi_new d) (delta_phi s) = Inr diff"
    and dr: "delta_restr d = np_max (map fabs diff)"
    and up: "update_delta_phi (delta d) (delta_restr d) (tolerance_restr a) (alpha_restr s')
         (delta_phi s) (delta_phi_new d) = Inr (delta_phi s')"
    by blast
  let ?n = "length (delta_phi s)"
  have "diff = map2 fsub (delta_phi_new d) (delta_phi s)"
    using df assms(2) by (simp add: np_bin_same)
  then have "map fabs diff = map (\<lambda>j. fabs (fsub (delta_phi_new d ! j) (delta_phi s ! j))) [0..<?n]"
    using map2_nth_upt[of "delta_phi_new d" ?n "delta_phi s" fsub] assms(2) by (simp add: o_def)
  then have 2: "delta_restr d =
         np_max (map (\<lambda>j. fabs (fsub (delta_phi_new d ! j) (delta_phi s ! j))) [0..<?n])"
    using dr by simp
  have mixlen: "length (smul b (delta_phi s)) = length (smul c (delta_phi_new d))" for b c
    using assms(2) by (simp add: smul_def)
  have 3: "length (delta_phi s') = ?n
          \<and> (\<forall>j<?n. delta_phi s' ! j =
                  fadd (fmul (fsub (Fin 1) (alpha_restr s')) (delta_phi s ! j))
                       (fmul (alpha_restr s') (delta_phi_new d ! j)))"
    if "flt (delta d) secondary_threshold \<and> fgt (delta_restr d) (tolerance_restr a)"
  proof -
    have "delta_phi s' = vadd (smul (fsub (Fin 1) (alpha_restr s')) (delta_phi s))
                              (smul (alpha_restr s') (delta_phi_new d))"
      using up that by (simp add: update_delta_phi_def np_bin_same[OF mixlen] vadd_def)
    then show ?thesis using assms(2) by (simp add: length_mix[of _ ?n] nth_mix[of _ ?n])
  qed
  have 4: "delta_phi s' = delta_phi_new d"
    if "\<not> (flt (delta d) secondary_threshold \<and> fgt (delta_restr d) (tolerance_restr a))"
    using up that by (auto simp: update_delta_phi_def)
  have 5: "\<exists>s2. lr_step a upd upd_r2 vH vO pre muH muO i (s\<lparr>alpha_restr := x\<rparr>) = Inr (s2, d)
          \<and> (\<not> (flt (delta d) secondary_threshold \<and> fgt (delta_restr d) (tolerance_restr a))
               \<longrightarrow> delta_phi s2 = delta_phi s')" for x upd_r2
    by (rule lr_step_alpha_restr_irrelevant[OF assms])
  show ?thesis using dl 2 3 4 5 by blast
qed

theorem C2_two_phase_potential_update_witness:
  "(\<exists>s' d. lr_step_of example_lr_damped (Fin 0) (Fin 0) 0 (lr_init example_lr_damped) = Inr (s', d)
      \<and> length (delta_phi_new d) = length (delta_phi (lr_init example_lr_damped))
      \<and> flt (delta d) secondary_threshold
      \<and> fgt (delta_restr d) (tolerance_restr example_lr_damped)
      \<and> delta_phi_new d = [Fin (- 1), Fin (- 1)]
      \<and> delta_phi s' ! 0 = Fin (- (1 / 100)) \<and> delta_phi s' ! 1 = Fin (- (1 / 100)))"
proof -
  obtain s' d where
    st: "lr_step_of example_lr_damped (Fin 0) (Fin 0) 0 (lr_init example_lr_damped) = Inr (s', d)"
    and v: "delta d = Fin 0" "delta_restr d = Fin 1" "delta_phi_new d = [Fin (- 1), Fin (- 1)]"
      "alpha_restr s' = Fin (1 / 100)"
    using example_lr_damped_step by simp
  have len: "length (delta_phi_new d) = length (delta_phi (lr_init example_lr_damped))"
    by (simp add: v example_lr_damped_init)
  have dm: "flt (delta d) secondary_threshold \<and> fgt (delta_restr d) (tolerance_restr example_lr_damped)"
    by (simp add: v secondary_threshold_def fgt_def example_lr_damped_def example_lr_def)
  from C2_two_phase_potential_update[OF st[unfolded lr_step_of_def] len] dm
  have "\<forall>j<length (delta_phi (lr_init example_lr_damped)).
                delta_phi s' ! j =
                  fadd (fmul (fsub (Fin 1) (alpha_restr s')) (delta_phi (lr_init example_lr_damped) ! j))
                       (fmul (alpha_restr s') (delta_phi_new d ! j))"
    by blast
  then have "delta_phi s' ! 0 = Fin (- (1 / 100)) \<and> delta_phi s' ! 1 = Fin (- (1 / 100))"
    by (simp add: v example_lr_damped_init fsub_def)
  with st len dm v show ?thesis by blast
qed

subsection \<open>C4: convergence of the long-range solver\<close>

text \<open>
  C4: when the set-up of the long-range solver succeeds and the logging cadences are not
  zero, the solver returns the grid and the two densities exactly when some iteration
  \<open>k \<le> maxiter\<close> is reached (the loop ran the \<open>k\<close> iterations before it without returning),
  and at that iteration the density delta is below \<^verbatim>\<open>tolerance\<close> and \<open>delta_restr\<close> is below
  \<^verbatim>\<open>tolerance_restr\<close>; the densities returned are those of that iteration. The test is made in
  every iteration, nothing else enters it (there is no relative error in this solver), and
  any other result is the tuple of three \<^verbatim>\<open>None\<close>.
\<close>

theorem C4_long_range_convergence:
  assumes "length (muloc_H a) = length (zbins a)" and "length (muloc_O a) = length (zbins a)"
    and "2 \<le> length (zbins a)"
    and "mu_correction (phys a) (fabs (q_H a)) (kappa_inv a) (temp a) = Inr mH"
    and "mu_correction (phys a) (fabs (q_O a)) (kappa_inv a) (temp a) = Inr mO"
    and "print_every a \<noteq> 0" and "plot a \<longrightarrow> plot_every a \<noteq> 0"
  shows "(minimise_LR_twotype a = Inr (Some z, Some rH, Some rO) \<longleftrightarrow>
           (\<exists>k s s' d. int k \<le> maxiter a
              \<and> for_range (lr_body_of a mH mO) k 0 (lr_init a) = Inr (Next s)
              \<and> lr_step_of a mH mO (int k) s = Inr (s', d)
              \<and> flt (delta d) (tolerance a) \<and> flt (delta_restr d) (tolerance_restr a)
              \<and> z = zbins a \<and> rH = rho_H s' \<and> rO = rho_O s'))
       \<and> (\<forall>r. minimise_LR_twotype a = Inr r \<longrightarrow>
             r = (None, None, None) \<or> (\<exists>rH rO. r = (Some (zbins a), Some rH, Some rO)))"
proof -
  let ?B = "lr_body_of a mH mO"
  let ?N = "nat (maxiter a + 1)"
  have run: "minimise_LR_twotype a =
      (case for_range ?B ?N 0 (lr_init a) of
         Inl e \<Rightarrow> Inl e
       | Inr (Return r) \<Rightarrow> Inr r
       | Inr (Next s) \<Rightarrow>
           if maxiter a + 1 \<le> 0 then Inl UnboundLocalError else Inr (None, None, None))"
    using assms(1-5) by (simp add: minimise_LR_twotype_def Let_def)
  have succ: "minimise_LR_twotype a = Inr (Some z, Some rH, Some rO) \<longleftrightarrow>
      for_range ?B ?N 0 (lr_init a) = Inr (Return (Some z, Some rH, Some rO))"
    unfolding run by (auto split: sum.splits control.splits if_splits)
  have body: "?B i s = Inr (Return (Some z, Some rH, Some rO)) \<longleftrightarrow>
     (\<exists>s' d. lr_step_of a mH mO i s = Inr (s', d)
        \<and> flt (delta d) (tolerance a) \<and> flt (delta_restr d) (tolerance_restr a)
        \<and> z = zbins a \<and> rH = rho_H s' \<and> rO = rho_O s')" for i s
    unfolding lr_body_of_def lr_step_of_def by (rule lr_body_success_iff[OF assms(6,7)])
  have k: "k < ?N \<longleftrightarrow> int k \<le> maxiter a" for k by auto
  have 1: "minimise_LR_twotype a = Inr (Some z, Some rH, Some rO) \<longleftrightarrow>
           (\<exists>k s s' d. int k \<le> maxiter a
              \<and> for_range ?B k 0 (lr_init a) = Inr (Next s)
              \<and> lr_step_of a mH mO (int k) s = Inr (s', d)
              \<and> flt (delta d) (tolerance a) \<and> flt (delta_restr d) (tolerance_restr a)
              \<and> z = zbins a \<and> rH = rho_H s' \<and> rO = rho_O s')"
    unfolding succ for_range_Return_iff body k by auto
  have 2: "r = (None, None, None) \<or> (\<exists>rH rO. r = (Some (zbins a), Some rH, Some rO))"
    if "minimise_LR_twotype a = Inr r" for r
  proof (cases "for_range ?B ?N 0 (lr_init a)")
    case (Inl e)
    then show ?thesis using that unfolding run by simp
  next
    case (Inr c)
    show ?thesis
    proof (cases c)
      case (Next s)
      then show ?thesis using that Inr unfolding run by (simp split: if_splits)
    next
      case (Return r')
      then have "r' = r" using that Inr unfolding run by simp
      then obtain k t where "?B (0 + int k) t = Inr (Return r)"
        using Inr Return for_range_Return_iff[of ?B ?N 0 "lr_init a" r] by blast
      then show ?thesis
        unfolding lr_body_of_def by (rule lr_body_outcomes)
    qed
  qed
  show ?thesis using 1 2 by blast
qed

theorem C4_long_range_convergence_witness:
  "length (muloc_H example_lr) = length (zbins example_lr)
   \<and> length (muloc_O example_lr) = length (zbins example_lr)
   \<and> 2 \<le> length (zbins example_lr)
   \<and> print_every example_lr \<noteq> 0
   \<and> minimise_LR_twotype example_lr
       = Inr (Some [Fin 0, Fin 1], Some [Fin 1, Fin 1], Some [Fin 1, Fin 1])"
proof -
  have h: "length (muloc_H example_lr) = length (zbins example_lr)"
    "length (muloc_O example_lr) = length (zbins example_lr)"
    "2 \<le> length (zbins example_lr)"
    and p: "print_every example_lr \<noteq> 0" "plot example_lr \<longrightarrow> plot_every example_lr \<noteq> 0"
    by (simp_all add: example_lr_def)
  have z: "zbins example_lr = [Fin 0, Fin 1]" "maxiter example_lr = 0"
    "tolerance example_lr = Fin (1 / 100000)" "tolerance_restr example_lr = Fin (1 / 1000)"
    by (simp_all add: example_lr_def)
  have "\<exists>k s s' d. int k \<le> maxiter example_lr
      \<and> for_range (lr_body_of example_lr (Fin 0) (Fin 0)) k 0 (lr_init example_lr) = Inr (Next s)
      \<and> lr_step_of example_lr (Fin 0) (Fin 0) (int k) s = Inr (s', d)
      \<and> flt (delta d) (tolerance example_lr) \<and> flt (delta_restr d) (tolerance_restr example_lr)
      \<and> [Fin 0, Fin 1] = zbins example_lr \<and> [Fin 1, Fin 1] = rho_H s' \<and> [Fin 1, Fin 1] = rho_O s'"
    by (rule exI[of _ 0], rule exI[of _ "lr_init example_lr"])
       (simp add: example_lr_step z)
  then have "minimise_LR_twotype example_lr
       = Inr (Some [Fin 0, Fin 1], Some [Fin 1, Fin 1], Some [Fin 1, Fin 1])"
    using C4_long_range_convergence[OF h example_lr_mu p, of "[Fin 0, Fin 1]" "[Fin 1, Fin 1]" "[Fin 1, Fin 1]"]
    by blast
  with h p show ?thesis by blast
qed

subsection \<open>C6: the schedule mechanism against the specified lookup\<close>

text \<open>
  C6: at every iteration \<open>i\<close> the coefficient the loop holds, which it overwrites only when
  the index equals a key, is the coefficient of the largest key at most \<open>i\<close> that has been
  reached (the initial coefficient when there is none), and it does not change at an index
  that is not a key. This holds for every table, and for \<open>alpha\<close> in the single-species loop
  and \<open>alpha\<close> and \<open>alpha_restr\<close> in the long-range loop, in every iteration these loops
  execute and from whatever state they start.
\<close>

theorem C6_schedule_refines_lookup:
  "alpha_trace upd a0 i = schedule_spec upd a0 (int i)
    \<and> (map_of upd (int (Suc i)) = None \<longrightarrow> alpha_trace upd a0 (Suc i) = alpha_trace upd a0 i)
    \<and> (\<forall>s s' d. for_range (sr1_body a1 upd valid) i 0 s1 = Inr (Next s)
          \<and> sr1_step a1 upd valid (int i) s = Inr (s', d)
          \<longrightarrow> alpha s' = schedule_spec upd (alpha s1) (int i))
    \<and> (\<forall>s s' d. for_range (lr_body a2 upd upd_r vH vO pre muH muO) i 0 s2 = Inr (Next s)
          \<and> lr_step a2 upd upd_r vH vO pre muH muO (int i) s = Inr (s', d)
          \<longrightarrow> alpha s' = schedule_spec upd (alpha s2) (int i)
            \<and> alpha_restr s' = schedule_spec upd_r (alpha_restr s2) (int i))"
proof -
  have 1: "alpha_trace u a0 i = schedule_spec u a0 (int i)" for u a0 i
    by (rule alpha_trace_spec)
  have 2: "map_of upd (int (Suc i)) = None \<longrightarrow> alpha_trace upd a0 (Suc i) = alpha_trace upd a0 i"
    by (simp add: schedule_update_def)
  have 3: "alpha s' = schedule_spec upd (alpha s1) (int i)"
    if r: "for_range (sr1_body a1 upd valid) i 0 s1 = Inr (Next s)"
      and st: "sr1_step a1 upd valid (int i) s = Inr (s', d)" for s s' d
  proof -
    have "schedule_update upd (int i) (alpha s) = alpha_trace upd (alpha s1) i"
      by (rule loop_coefficient[OF _ r]) (auto dest!: sr1_body_Next sr1_step_inv)
    then show ?thesis using sr1_step_inv[OF st] 1 by simp
  qed
  have 4: "alpha s' = schedule_spec upd (alpha s2) (int i)
          \<and> alpha_restr s' = schedule_spec upd_r (alpha_restr s2) (int i)"
    if r: "for_range (lr_body a2 upd upd_r vH vO pre muH muO) i 0 s2 = Inr (Next s)"
      and st: "lr_step a2 upd upd_r vH vO pre muH muO (int i) s = Inr (s', d)" for s s' d
  proof -
    have a: "schedule_update upd (int i) (alpha s) = alpha_trace upd (alpha s2) i"
      by (rule loop_coefficient[OF _ r]) (rule lr_body_coefficients(1))
    have b: "schedule_update upd_r (int i) (alpha_restr s) = alpha_trace upd_r (alpha_restr s2) i"
      by (rule loop_coefficient[OF _ r]) (rule lr_body_coefficients(2))
    from lr_step_inv[OF st] have "alpha s' = schedule_update upd (int i) (alpha s)"
      "alpha_restr s' = schedule_update upd_r (int i) (alpha_restr s)" by blast+
    then show ?thesis using a b 1 by simp
  qed
  show ?thesis using 1 2 3 4 by blast
qed

theorem C6_schedule_refines_lookup_witness:
  "alpha_trace alpha_updates_default_onetype (Fin (1 / 1000000)) 25 = Fin (1 / 1000)
   \<and> alpha_trace alpha_updates_default_onetype (Fin (1 / 1000000)) 5 = Fin (1 / 1000000)
   \<and> alpha_trace [(- 1, Fin (1 / 2)), (2, Fin (1 / 5))] (Fin (1 / 10)) 1 = Fin (1 / 10)
   \<and> alpha_trace [(- 1, Fin (1 / 2)), (2, Fin (1 / 5))] (Fin (1 / 10)) 3 = Fin (1 / 5)
   \<and> map_of alpha_updates_default_onetype (int (Suc 25)) = None
   \<and> alpha_trace alpha_updates_default_onetype (Fin (1 / 1000000)) (Suc 25)
       = alpha_trace alpha_updates_default_onetype (Fin (1 / 1000000)) 25
   \<and> (\<exists>s' d. sr1_step example_sr1 (sr1_schedule example_sr1) (validity (muloc example_sr1))
                 (int 0) (sr1_init example_sr1) = Inr (s', d)
         \<and> alpha s' = Fin (1 / 2))
   \<and> (\<exists>s' d. lr_step example_lr (sr2_schedule example_lr) (lr_schedule_restr example_lr)
                 (validity (muloc_H example_lr)) (validity (muloc_O example_lr)) (Fin 1)
                 [Fin 0, Fin 0] [Fin 0, Fin 0] (int 0) (lr_init example_lr) = Inr (s', d)
         \<and> alpha s' = Fin (1 / 2) \<and> alpha_restr s' = Fin (1 / 100))"
proof -
  let ?u = "alpha_updates_default_onetype" and ?w = "[(- 1, Fin (1 / 2)), (2, Fin (1 / 5))]"
  have s1: "schedule_spec ?u (Fin (1 / 1000000)) (int 25) = Fin (1 / 1000)"
    by (simp add: schedule_spec_def alpha_updates_default_onetype_def)
  have s2: "schedule_spec ?u (Fin (1 / 1000000)) (int 5) = Fin (1 / 1000000)"
    by (simp add: schedule_spec_def alpha_updates_default_onetype_def)
  have s3: "schedule_spec ?w (Fin (1 / 10)) (int 1) = Fin (1 / 10)"
    by (simp add: schedule_spec_def)
  have s4: "schedule_spec ?w (Fin (1 / 10)) (int 3) = Fin (1 / 5)"
    by (simp add: schedule_spec_def)
  have t1: "alpha_trace ?u (Fin (1 / 1000000)) 25 = schedule_spec ?u (Fin (1 / 1000000)) (int 25)"
    by (rule C6_schedule_refines_lookup[THEN conjunct1])
  have t2: "alpha_trace ?u (Fin (1 / 1000000)) 5 = schedule_spec ?u (Fin (1 / 1000000)) (int 5)"
    by (rule C6_schedule_refines_lookup[THEN conjunct1])
  have t3: "alpha_trace ?w (Fin (1 / 10)) 1 = schedule_spec ?w (Fin (1 / 10)) (int 1)"
    by (rule C6_schedule_refines_lookup[THEN conjunct1])
  have t4: "alpha_trace ?w (Fin (1 / 10)) 3 = schedule_spec ?w (Fin (1 / 10)) (int 3)"
    by (rule C6_schedule_refines_lookup[THEN conjunct1])
  have n: "map_of ?u (int (Suc 25)) = None"
    by (simp add: alpha_updates_default_onetype_def)
  have t5: "alpha_trace ?u (Fin (1 / 1000000)) (Suc 25) = alpha_trace ?u (Fin (1 / 1000000)) 25"
    by (rule C6_schedule_refines_lookup[THEN conjunct2, THEN conjunct1, rule_format, OF n])
  let ?b = "sr1_body example_sr1 (sr1_schedule example_sr1) (validity (muloc example_sr1))"
  have r: "for_range ?b 0 0 (sr1_init example_sr1) = Inr (Next (sr1_init example_sr1))"
    by simp
  obtain s' d where st: "sr1_step example_sr1 (sr1_schedule example_sr1)
      (validity (muloc example_sr1)) (int 0) (sr1_init example_sr1) = Inr (s', d)"
    using sr1_step_eq[of example_sr1 1 "sr1_init example_sr1" "sr1_schedule example_sr1" 0]
    by (simp add: example_sr1_init Let_def) (simp add: example_sr1_def)
  have "alpha s' = schedule_spec (sr1_schedule example_sr1) (alpha (sr1_init example_sr1)) (int 0)"
    using C6_schedule_refines_lookup[THEN conjunct2, THEN conjunct2, THEN conjunct1,
        rule_format, of example_sr1 "sr1_schedule example_sr1" "validity (muloc example_sr1)"
        0 "sr1_init example_sr1" "sr1_init example_sr1" s' d] r st
    by blast
  also have "\<dots> = Fin (1 / 2)"
    by (simp add: example_sr1_init)
       (simp add: schedule_spec_def sr1_schedule_def example_sr1_def
          alpha_updates_default_onetype_def)
  finally have a: "alpha s' = Fin (1 / 2)" .
  let ?l = "lr_body example_lr (sr2_schedule example_lr) (lr_schedule_restr example_lr)
      (validity (muloc_H example_lr)) (validity (muloc_O example_lr)) (Fin 1)
      [Fin 0, Fin 0] [Fin 0, Fin 0]"
  have rl: "for_range ?l 0 0 (lr_init example_lr) = Inr (Next (lr_init example_lr))"
    by simp
  obtain t' e where sl: "lr_step example_lr (sr2_schedule example_lr)
      (lr_schedule_restr example_lr) (validity (muloc_H example_lr))
      (validity (muloc_O example_lr)) (Fin 1) [Fin 0, Fin 0] [Fin 0, Fin 0] (int 0)
      (lr_init example_lr) = Inr (t', e)"
    using example_lr_step unfolding lr_step_of_def
    by (simp add: example_lr_def smul_def ones_def numeral_2_eq_2)
  have "alpha t' = schedule_spec (sr2_schedule example_lr) (alpha (lr_init example_lr)) (int 0)
      \<and> alpha_restr t'
        = schedule_spec (lr_schedule_restr example_lr) (alpha_restr (lr_init example_lr)) (int 0)"
    using C6_schedule_refines_lookup[THEN conjunct2, THEN conjunct2, THEN conjunct2,
        rule_format, where ?a2.0 = example_lr and upd = "sr2_schedule example_lr"
          and upd_r = "lr_schedule_restr example_lr" and i = 0
          and ?s2.0 = "lr_init example_lr" and s = "lr_init example_lr" and s' = t' and d = e]
      rl sl
    by blast
  moreover have "schedule_spec (sr2_schedule example_lr) (alpha (lr_init example_lr)) (int 0)
      = Fin (1 / 2)"
    by (simp add: example_lr_init)
       (simp add: schedule_spec_def sr2_schedule_def example_lr_def
          alpha_updates_default_twotype_def)
  moreover have "schedule_spec (lr_schedule_restr example_lr)
      (alpha_restr (lr_init example_lr)) (int 0) = Fin (1 / 100)"
    by (simp add: example_lr_init)
       (simp add: schedule_spec_def lr_schedule_restr_def example_lr_def
          alpha_restr_updates_default_def)
  ultimately have b: "alpha t' = Fin (1 / 2)" "alpha_restr t' = Fin (1 / 100)" by simp_all
  show ?thesis
    using t1 t2 t3 t4 n t5 st a sl b unfolding s1 s2 s3 s4 by blast
qed

subsection \<open>C8: a NaN from the evaluator in the two-species solver\<close>

lemma nan_sr2_init:
  "sr2_init nan_sr2 = \<lparr>alpha = Fin (1 / 1000000), log_rho_H_new = [Fin 0],
     log_rho_O_new = [Fin 0], log_rho_H = [Fin 0], log_rho_O = [Fin 0],
     rho_H = [Fin 1], rho_O = [Fin 1]\<rparr>"
  by (simp add: sr2_init_def nan_sr2_def initial_log_rho_def validity_def zeros_def ones_def
      smul_def)

lemma nan_sr2_step:
  "sr2_step_of nan_sr2 0 (sr2_init nan_sr2) =
     Inr (\<lparr>alpha = Fin (1 / 1000000), log_rho_H_new = [Fin 0], log_rho_O_new = [NaN],
            log_rho_H = [Fin 0], log_rho_O = [NaN], rho_H = [Fin 1], rho_O = [NaN]\<rparr>,
          \<lparr>delta = Fin 0, rho_H_new = [Fin 1], rho_O_new = [NaN]\<rparr>)"
  unfolding nan_sr2_init
  by (simp add: sr2_step_of_def sr2_step_def nan_sr2_def sr2_schedule_def schedule_update_def
      alpha_updates_default_twotype_def validity_def picard_update_def vadd_def smul_def
      fsub_def Let_def max_abs_diff_def vsub_def py_max_def fgt_def)

lemma nan_sr2_body:
  "sr2_body_of nan_sr2 0 (sr2_init nan_sr2) =
     Inr (Return (Some [Fin 0], Some [Fin 1], Some [NaN]))"
  using nan_sr2_step
  by (simp add: sr2_body_of_def sr2_step_of_def sr2_body_def)
     (simp add: nan_sr2_def py_max_def fgt_def)

text \<open>
  C8 claims that every solver aborts with the failure sentinel, and never returns a density,
  when the evaluator returns NaN at a valid position. In the two-species solver the joint
  diagnostic is Python's \<^verbatim>\<open>max(delta_H, delta_O)\<close>, which is \<open>delta_H\<close> when only \<open>delta_O\<close> is
  NaN: on a one-point grid with an evaluator that returns zero for the first species and NaN
  for the second, \<open>delta\<close> is zero, the divergence test does not fire, and the solver returns
  the grid with a density that holds NaN.
\<close>

theorem C8_two_species_returns_nan_density:
  "minimise_SR_twotype nan_sr2 = Inr (Some [Fin 0], Some [Fin 1], Some [NaN])"
proof -
  have "for_range (sr2_body_of nan_sr2) (nat (maxiter nan_sr2 + 1)) 0 (sr2_init nan_sr2)
      = Inr (Return (Some [Fin 0], Some [Fin 1], Some [NaN]))"
    using nan_sr2_body
    by (intro for_range_first_Return[where body = "sr2_body_of nan_sr2" and i = 0]) (simp_all add: nan_sr2_def)
  then show ?thesis
    by (simp add: minimise_SR_twotype_def) (simp add: nan_sr2_def)
qed

text \<open>The single-species solver, whose diagnostic is one \<^verbatim>\<open>np.max\<close>, returns the sentinel
  on the corresponding input.\<close>

lemma single_species_aborts_on_nan:
  "minimise_SR_onetype nan_sr1 = Inr (None, None)"
proof -
  have i: "sr1_init nan_sr1 = \<lparr>alpha = Fin (1 / 1000000), log_rho_new = [Fin 0],
      log_rho = [Fin 0], rho = [Fin 1]\<rparr>"
    by (simp add: sr1_init_def nan_sr1_def initial_log_rho_def validity_def zeros_def ones_def
        smul_def)
  have "sr1_body_of nan_sr1 0 (sr1_init nan_sr1) = Inr (Return (None, None))"
    unfolding i
    by (simp add: sr1_body_of_def sr1_body_def sr1_step_def nan_sr1_def sr1_schedule_def
        schedule_update_def alpha_updates_default_onetype_def validity_def picard_update_def
        vadd_def smul_def fsub_def Let_def max_abs_diff_def vsub_def)
  then have "for_range (sr1_body_of nan_sr1) (nat (maxiter nan_sr1 + 1)) 0 (sr1_init nan_sr1)
      = Inr (Return (None, None))"
    by (intro for_range_first_Return[where body = "sr1_body_of nan_sr1" and i = 0]) (simp_all add: nan_sr1_def)
  then show ?thesis
    by (simp add: minimise_SR_onetype_def) (simp add: nan_sr1_def)
qed

subsection \<open>Densities stay in order\<close>

lemma coeff_okE: "coeff_ok x \<Longrightarrow> \<exists>r. x = Fin r \<and> 0 < r \<and> r < 1"
  by (cases x) (simp_all add: coeff_ok_def)

lemma schedule_update_ok:
  "schedule_ok upd \<Longrightarrow> coeff_ok x \<Longrightarrow> coeff_ok (schedule_update upd i x)"
  by (auto simp: schedule_ok_def schedule_update_def list_all_iff split: option.splits
      dest!: map_of_SomeD)

lemma mask_fill_twice:
  "mask_fill (mask_fill (replicate (length valid) z) valid x) (map Not valid) y
     = map (\<lambda>v. if v then x else y) valid"
  by (induction valid) simp_all

lemma bounded_by_Fin: "bounded_by b x \<longleftrightarrow> (\<exists>r. x = Fin r \<and> - b \<le> r \<and> r \<le> b)"
  by (cases x) (auto simp: bounded_by_def fle_def)

lemma mix_within:
  fixes al :: real
  assumes "0 < al" "al < 1" "lo \<le> A" "A \<le> hi" "lo \<le> B" "B \<le> hi"
  shows "lo \<le> (1 - al) * A + al * B" and "(1 - al) * A + al * B \<le> hi"
proof -
  have "0 \<le> (1 - al) * (A - lo) + al * (B - lo)"
    using assms by (intro add_nonneg_nonneg mult_nonneg_nonneg) simp_all
  then show "lo \<le> (1 - al) * A + al * B" by (simp add: algebra_simps)
  have "0 \<le> (1 - al) * (hi - A) + al * (hi - B)"
    using assms by (intro add_nonneg_nonneg mult_nonneg_nonneg) simp_all
  then show "(1 - al) * A + al * B \<le> hi" by (simp add: algebra_simps)
qed

lemma fl_mix_within:
  assumes "coeff_ok al" and "bounded_by b x" and "bounded_by b y"
  shows "bounded_by b (fadd (fmul (fsub (Fin 1) al) x) (fmul al y))"
proof -
  obtain a where a: "al = Fin a" "0 < a" "a < 1" using coeff_okE[OF assms(1)] by blast
  obtain u v where u: "x = Fin u" "- b \<le> u" "u \<le> b" and v: "y = Fin v" "- b \<le> v" "v \<le> b"
    using assms(2,3) unfolding bounded_by_Fin by blast
  from mix_within[OF a(2,3) u(2,3) v(2,3)] show ?thesis
    unfolding bounded_by_Fin by (simp add: a u v fsub_def)
qed

lemma fl_mix_NInf:
  assumes "coeff_ok al"
  shows "fadd (fmul (fsub (Fin 1) al) NInf) (fmul al NInf) = NInf"
proof -
  obtain a where a: "al = Fin a" "0 < a" "a < 1" using coeff_okE[OF assms(1)] by blast
  show ?thesis using a by (simp add: fsub_def)
qed

lemma initial_log_rho_ok:
  assumes "guess_ok g"
  shows "log_ok valid (initial_log_rho (length valid) valid g)"
  unfolding initial_log_rho_def zeros_def mask_fill_twice log_ok_def
  using assms by (simp add: list_all2_conv_all_nth guess_ok_def)

lemma initial_density:
  assumes "guess_ok g"
  shows "smul g (ones n) = replicate n g \<and> flt (Fin 0) g"
proof -
  obtain r where "flog g = Fin r" using assms unfolding guess_ok_def bounded_by_Fin by blast
  then obtain x where "g = Fin x" by (cases g) (simp_all split: if_splits)
  then show ?thesis using assms by (simp add: smul_def ones_def guess_ok_def)
qed

lemma validity_finite: "j < length m \<Longrightarrow> validity m ! j \<Longrightarrow> isfinite (m ! j)"
  by (simp add: validity_def)

lemma picard_ok:
  assumes len: "length buf = length m" "length lr = length m"
    and c: "profile_ok (validity m) m c"
    and lr: "log_ok (validity m) lr"
    and al: "coeff_ok al"
    and p: "picard_update (validity m) m c buf al lr = (lrn, rn, lr', r')"
  shows "length lrn = length m \<and> log_ok (validity m) lr' \<and> density_ok (validity m) r'
    \<and> length r' = length m"
proof -
  let ?v = "validity m"
  let ?n = "length m"
  have lv: "length ?v = ?n" by (simp add: validity_def)
  have lc: "length c = ?n" using c lv by (simp add: profile_ok_def)
  let ?t = "target_log ?v m c"
  have tk: "log_ok ?v ?t" using c by (simp add: profile_ok_def)
  have eq: "lrn = ?t" "lr' = vadd (smul (fsub (Fin 1) al) lr) (smul al ?t)" "r' = map fexp lr'"
    using p unfolding picard_update_eq[of buf ?v m c al lr, OF _ _ _] 
    using len lv lc by (auto simp: picard_update_eq)
  have lt: "length ?t = ?n" using lv lc by (simp add: length_target_log)
  have ll: "length lr' = ?n" unfolding eq(2) using len lt by (simp add: length_mix)
  have pt: "if ?v ! j then bounded_by 700 (lr' ! j) else lr' ! j = NInf" if j: "j < ?n" for j
  proof -
    have l: "lr' ! j = fadd (fmul (fsub (Fin 1) al) (lr ! j)) (fmul al (?t ! j))"
      unfolding eq(2) using j len lt by (simp add: nth_mix)
    have a: "if ?v ! j then bounded_by 700 (lr ! j) else lr ! j = NInf"
      using lr j lv by (simp add: log_ok_def list_all2_conv_all_nth)
    have b: "if ?v ! j then bounded_by 700 (?t ! j) else ?t ! j = NInf"
      using tk j lv by (simp add: log_ok_def list_all2_conv_all_nth)
    show ?thesis
    proof (cases "?v ! j")
      case True
      then show ?thesis unfolding l using a b by (simp add: fl_mix_within[OF al])
    next
      case False
      then show ?thesis unfolding l using a b by (simp add: fl_mix_NInf[OF al])
    qed
  qed
  have lo: "log_ok ?v lr'"
    unfolding log_ok_def list_all2_conv_all_nth using pt lv ll by simp
  have lr': "length r' = ?n" using ll eq(3) by simp
  have dj: "fle (Fin 0) (r' ! j) \<and> (if ?v ! j then flt (Fin 0) (r' ! j) else r' ! j = Fin 0)"
    if j: "j < ?n" for j
  proof (cases "?v ! j")
    case True
    have r: "r' ! j = fexp (lr' ! j)" unfolding eq(3) using j ll by simp
    from pt[OF j] True obtain x where x: "lr' ! j = Fin x" "- 700 \<le> x" "x \<le> 700"
      unfolding bounded_by_Fin by auto
    show ?thesis using True unfolding r x(1) fexp_Fin_700[OF x(2,3)] by (simp add: fle_def)
  next
    case False
    have r: "r' ! j = fexp (lr' ! j)" unfolding eq(3) using j ll by simp
    show ?thesis using pt[OF j] False unfolding r by (simp add: fle_def)
  qed
  have "density_ok ?v r'"
    unfolding density_ok_def list_all2_conv_all_nth
  proof (intro conjI allI impI)
    show "length ?v = length r'" using lv lr' by simp
  next
    fix i assume "i < length ?v"
    then have "i < ?n" using lv by simp
    from dj[OF this] show "fle (Fin 0) (r' ! i)" by simp
    from dj[OF \<open>i < ?n\<close>] show "if ?v ! i then flt (Fin 0) (r' ! i) else r' ! i = Fin 0" by simp
  qed
  then show ?thesis using lo lt eq(1) lr' by simp
qed

lemma length_validity [simp]: "length (validity m) = length m"
  by (simp add: validity_def)

lemma log_ok_length: "log_ok v lr \<Longrightarrow> length lr = length v"
  by (auto simp: log_ok_def dest: list_all2_lengthD)

lemma density_ok_length: "density_ok v r \<Longrightarrow> length r = length v"
  by (auto simp: density_ok_def dest: list_all2_lengthD)

lemma sr1_init_inv:
  assumes "sr1_inputs_ok a"
  shows "sr1_inv a (sr1_init a)"
proof -
  have l: "length (zbins a) = length (validity (muloc a))"
    using assms by (simp add: sr1_inputs_ok_def)
  have "log_ok (validity (muloc a)) (initial_log_rho (length (zbins a)) (validity (muloc a)) (initial_guess a))"
    unfolding l by (rule initial_log_rho_ok) (use assms in \<open>simp add: sr1_inputs_ok_def\<close>)
  then show ?thesis
    using assms by (simp add: sr1_inv_def sr1_init_def sr1_inputs_ok_def Let_def zeros_def ones_def smul_def)
qed

lemma sr1_step_pres:
  assumes ok: "sr1_inputs_ok a" and inv: "sr1_inv a s"
    and st: "sr1_step_of a i s = Inr (s', d)"
  shows "sr1_inv a s' \<and> density_ok (validity (muloc a)) (rho s')"
proof -
  let ?v = "validity (muloc a)"
  from sr1_step_inv[OF st[unfolded sr1_step_of_def]]
  have p: "picard_update ?v (muloc a) (c1_onetype a (rho s)) (log_rho_new s) (alpha s') (log_rho s)
        = (log_rho_new s', rho_new d, log_rho s', rho s')"
    and al: "alpha s' = schedule_update (sr1_schedule a) i (alpha s)"
    by blast+
  have c: "profile_ok ?v (muloc a) (c1_onetype a (rho s))"
    using ok inv by (simp add: sr1_inputs_ok_def sr1_inv_def)
  have a': "coeff_ok (alpha s')"
    unfolding al using ok inv by (simp add: schedule_update_ok sr1_inputs_ok_def sr1_inv_def)
  have lr: "log_ok ?v (log_rho s)" using inv by (simp add: sr1_inv_def)
  have len: "length (log_rho_new s) = length (muloc a)" "length (log_rho s) = length (muloc a)"
    using inv log_ok_length[OF lr] by (simp_all add: sr1_inv_def)
  from picard_ok[OF len c lr a' p] show ?thesis
    using a' by (simp add: sr1_inv_def)
qed

lemma sr1_reach_inv:
  assumes ok: "sr1_inputs_ok a"
    and run: "for_range (sr1_body_of a) k 0 (sr1_init a) = Inr (Next s)"
  shows "sr1_inv a s"
proof (rule for_range_Next_invariant[where P = "\<lambda>_. sr1_inv a", OF run])
  show "sr1_inv a (sr1_init a)" by (rule sr1_init_inv[OF ok])
next
  fix j t t'
  assume t: "sr1_inv a t" and b: "sr1_body_of a (0 + int j) t = Inr (Next t')"
  from sr1_body_Next[OF b[unfolded sr1_body_of_def]] obtain d
    where "sr1_step_of a (0 + int j) t = Inr (t', d)"
    unfolding sr1_step_of_def by blast
  from sr1_step_pres[OF ok t this] show "sr1_inv a t'" by simp
qed

lemma sr1_densities:
  assumes ok: "sr1_inputs_ok a"
  shows "(\<forall>k s s' d. for_range (sr1_body_of a) k 0 (sr1_init a) = Inr (Next s)
            \<and> sr1_step_of a (int k) s = Inr (s', d)
            \<longrightarrow> density_ok (validity (muloc a)) (rho s'))
       \<and> (\<forall>z r. minimise_SR_onetype a = Inr (Some z, Some r)
            \<longrightarrow> density_ok (validity (muloc a)) r)"
proof (intro conjI allI impI)
  fix k s s' d
  assume "for_range (sr1_body_of a) k 0 (sr1_init a) = Inr (Next s)
            \<and> sr1_step_of a (int k) s = Inr (s', d)"
  then show "density_ok (validity (muloc a)) (rho s')"
    using sr1_step_pres[OF ok sr1_reach_inv[OF ok]] by blast
next
  fix z r
  assume m: "minimise_SR_onetype a = Inr (Some z, Some r)"
  then have "for_range (sr1_body_of a) (nat (maxiter a + 1)) 0 (sr1_init a)
      = Inr (Return (Some z, Some r))"
    unfolding minimise_SR_onetype_def
    by (auto split: if_splits sum.splits control.splits)
  then obtain k t where run: "for_range (sr1_body_of a) k 0 (sr1_init a) = Inr (Next t)"
    and b: "sr1_body_of a (0 + int k) t = Inr (Return (Some z, Some r))"
    unfolding for_range_Return_iff by blast
  from sr1_body_success[OF b[unfolded sr1_body_of_def]] obtain s' d where
    "sr1_step_of a (0 + int k) t = Inr (s', d)" "r = rho s'"
    unfolding sr1_step_of_def by blast
  then show "density_ok (validity (muloc a)) r"
    using sr1_step_pres[OF ok sr1_reach_inv[OF ok run]] by blast
qed

lemma sr2_init_inv:
  assumes "length (muloc_H a) = length (zbins a)" and "length (muloc_O a) = length (zbins a)"
    and g: "guess_ok (initial_guess a)" and "coeff_ok (alpha_initial a)"
  shows "sr2_inv a (sr2_init a)"
proof -
  have l: "length (zbins a) = length (validity (muloc_H a))"
    "length (zbins a) = length (validity (muloc_O a))"
    using assms by simp_all
  have "log_ok (validity (muloc_H a)) (initial_log_rho (length (zbins a)) (validity (muloc_H a)) (initial_guess a))"
    unfolding l(1) by (rule initial_log_rho_ok[OF g])
  moreover have "log_ok (validity (muloc_O a)) (initial_log_rho (length (zbins a)) (validity (muloc_O a)) (initial_guess a))"
    unfolding l(2) by (rule initial_log_rho_ok[OF g])
  ultimately show ?thesis
    using assms by (simp add: sr2_inv_def sr2_init_def Let_def zeros_def ones_def smul_def)
qed

lemma sr2_step_pres:
  assumes ok: "sr2_inputs_ok a" and inv: "sr2_inv a s"
    and st: "sr2_step_of a i s = Inr (s', d)"
  shows "sr2_inv a s' \<and> density_ok (validity (muloc_H a)) (rho_H s')
     \<and> density_ok (validity (muloc_O a)) (rho_O s')"
proof -
  let ?vH = "validity (muloc_H a)" and ?vO = "validity (muloc_O a)"
  let ?c = "c1_twotype a (rho_H s) (rho_O s)"
  from sr2_step_inv[OF st[unfolded sr2_step_of_def]]
  have pH: "picard_update ?vH (muloc_H a) (fst ?c) (log_rho_H_new s) (alpha s') (log_rho_H s)
        = (log_rho_H_new s', rho_H_new d, log_rho_H s', rho_H s')"
    and pO: "picard_update ?vO (muloc_O a) (snd ?c) (log_rho_O_new s) (alpha s') (log_rho_O s)
        = (log_rho_O_new s', rho_O_new d, log_rho_O s', rho_O s')"
    and al: "alpha s' = schedule_update (sr2_schedule a) i (alpha s)"
    by blast+
  have c: "profile_ok ?vH (muloc_H a) (fst ?c)" "profile_ok ?vO (muloc_O a) (snd ?c)"
    using ok inv by (simp_all add: sr2_inputs_ok_def sr2_inv_def)
  have a': "coeff_ok (alpha s')"
    unfolding al using ok inv by (simp add: schedule_update_ok sr2_inputs_ok_def sr2_inv_def)
  have lH: "log_ok ?vH (log_rho_H s)" and lO: "log_ok ?vO (log_rho_O s)"
    using inv by (simp_all add: sr2_inv_def)
  have lenH: "length (log_rho_H_new s) = length (muloc_H a)" "length (log_rho_H s) = length (muloc_H a)"
    using inv log_ok_length[OF lH] by (simp_all add: sr2_inv_def)
  have lenO: "length (log_rho_O_new s) = length (muloc_O a)" "length (log_rho_O s) = length (muloc_O a)"
    using inv log_ok_length[OF lO] by (simp_all add: sr2_inv_def)
  from picard_ok[OF lenH c(1) lH a' pH] picard_ok[OF lenO c(2) lO a' pO] show ?thesis
    using a' by (simp add: sr2_inv_def)
qed

lemma sr2_reach_inv:
  assumes ok: "sr2_inputs_ok a"
    and run: "for_range (sr2_body_of a) k 0 (sr2_init a) = Inr (Next s)"
  shows "sr2_inv a s"
proof (rule for_range_Next_invariant[where P = "\<lambda>_. sr2_inv a", OF run])
  show "sr2_inv a (sr2_init a)"
    using ok by (intro sr2_init_inv) (simp_all add: sr2_inputs_ok_def)
next
  fix j t t'
  assume t: "sr2_inv a t" and b: "sr2_body_of a (0 + int j) t = Inr (Next t')"
  from sr2_body_Next[OF b[unfolded sr2_body_of_def]] obtain d
    where "sr2_step_of a (0 + int j) t = Inr (t', d)"
    unfolding sr2_step_of_def by blast
  from sr2_step_pres[OF ok t this] show "sr2_inv a t'" by simp
qed

lemma sr2_densities:
  assumes ok: "sr2_inputs_ok a"
  shows "(\<forall>k s s' d. for_range (sr2_body_of a) k 0 (sr2_init a) = Inr (Next s)
            \<and> sr2_step_of a (int k) s = Inr (s', d)
            \<longrightarrow> density_ok (validity (muloc_H a)) (rho_H s')
              \<and> density_ok (validity (muloc_O a)) (rho_O s'))
       \<and> (\<forall>z rH rO. minimise_SR_twotype a = Inr (Some z, Some rH, Some rO)
            \<longrightarrow> density_ok (validity (muloc_H a)) rH \<and> density_ok (validity (muloc_O a)) rO)"
proof (intro conjI allI impI)
  fix k s s' d
  assume h: "for_range (sr2_body_of a) k 0 (sr2_init a) = Inr (Next s)
            \<and> sr2_step_of a (int k) s = Inr (s', d)"
  then show "density_ok (validity (muloc_H a)) (rho_H s')"
    and "density_ok (validity (muloc_O a)) (rho_O s')"
    using sr2_step_pres[OF ok sr2_reach_inv[OF ok]] by blast+
next
  fix z rH rO
  assume m: "minimise_SR_twotype a = Inr (Some z, Some rH, Some rO)"
  then have "for_range (sr2_body_of a) (nat (maxiter a + 1)) 0 (sr2_init a)
      = Inr (Return (Some z, Some rH, Some rO))"
    unfolding minimise_SR_twotype_def
    by (auto split: if_splits sum.splits control.splits)
  then obtain k t where run: "for_range (sr2_body_of a) k 0 (sr2_init a) = Inr (Next t)"
    and b: "sr2_body_of a (0 + int k) t = Inr (Return (Some z, Some rH, Some rO))"
    unfolding for_range_Return_iff by blast
  from sr2_body_success[OF b[unfolded sr2_body_of_def]] obtain s' d where
    "sr2_step_of a (0 + int k) t = Inr (s', d)" "rH = rho_H s'" "rO = rho_O s'"
    unfolding sr2_step_of_def by blast
  then show "density_ok (validity (muloc_H a)) rH" and "density_ok (validity (muloc_O a)) rO"
    using sr2_step_pres[OF ok sr2_reach_inv[OF ok run]] by blast+
qed

lemma update_delta_phi_ok:
  assumes "potential_ok P n phi" and "potential_ok P n phi_new" and "coeff_ok ar"
    and "update_delta_phi dl dr tol ar phi phi_new = Inr p"
  shows "potential_ok P n p"
proof (cases "flt dl secondary_threshold \<and> fgt dr tol")
  case False
  then show ?thesis using assms by (auto simp: update_delta_phi_def)
next
  case True
  have l: "length phi = n" "length phi_new = n"
    using assms(1,2) by (simp_all add: potential_ok_def)
  have p: "p = vadd (smul (fsub (Fin 1) ar) phi) (smul ar phi_new)"
    using l assms(4) True by (simp add: update_delta_phi_def np_bin_same smul_def vadd_def)
  have "bounded_by P (p ! j)" if "j < n" for j
  proof -
    have "bounded_by P (phi ! j)" "bounded_by P (phi_new ! j)"
      using assms(1,2) that by (simp_all add: potential_ok_def list_all_length)
    then show ?thesis
      unfolding p using that l by (simp add: nth_mix[of _ n] fl_mix_within[OF assms(3)])
  qed
  moreover have "length p = n" unfolding p using l by (simp add: length_mix)
  ultimately show ?thesis by (simp add: potential_ok_def list_all_length)
qed

lemma lr_init_inv:
  assumes "lr_inputs_ok a mH mO P"
  shows "lr_inv a P (lr_init a)"
proof -
  have "sr2_inv a (sr2_init a)"
    using assms by (intro sr2_init_inv) (simp_all add: lr_inputs_ok_def)
  then have "sr2_inv a (lr_init a)"
    by (simp add: sr2_inv_def lr_init_def Let_def)
  moreover have "0 \<le> P" using assms by (simp add: lr_inputs_ok_def)
  ultimately show ?thesis
    by (simp add: lr_inv_def lr_init_def Let_def zeros_def coeff_ok_def potential_ok_def
        list_all_length bounded_by_Fin)
qed

lemma lr_step_pres:
  assumes ok: "lr_inputs_ok a mH mO P" and inv: "lr_inv a P s"
    and st: "lr_step_of a mH mO i s = Inr (s', d)"
  shows "lr_inv a P s' \<and> density_ok (validity (muloc_H a)) (rho_H s')
     \<and> density_ok (validity (muloc_O a)) (rho_O s')"
proof -
  let ?vH = "validity (muloc_H a)" and ?vO = "validity (muloc_O a)"
  let ?c = "c1_twotype a (rho_H s) (rho_O s)"
  let ?n = "length (zbins a)"
  let ?pre = "calculate_prefactor (lmft_utils a) (temp a) (dielectric a)"
  have n: "length (muloc_H a) = ?n" "length (muloc_O a) = ?n"
    and sa: "schedule_ok (sr2_schedule a)"
    and sr: "schedule_ok (lr_schedule_restr a)"
    and R: "\<And>nk k. potential_ok P ?n
              (muls (map fneg (restructure_electrostatic_potential (lmft_utils a) nk k (zbins a)
                     (kappa_inv a))) ?pre)"
    and E: "\<And>rh ro phi. length rh = ?n \<Longrightarrow> length ro = ?n \<Longrightarrow> potential_ok P ?n phi \<Longrightarrow>
           \<exists>cH cO.
              corrected_c1 (fst (c1_twotype a rh ro)) (smul mH (ones ?n)) (q_H a) phi = Inr cH
            \<and> corrected_c1 (snd (c1_twotype a rh ro)) (smul mO (ones ?n)) (q_O a) phi = Inr cO
            \<and> profile_ok ?vH (muloc_H a) cH \<and> profile_ok ?vO (muloc_O a) cO"
    using ok by (simp_all add: lr_inputs_ok_def)
  have i2: "sr2_inv a s" and ar: "coeff_ok (alpha_restr s)"
    and phi: "potential_ok P ?n (delta_phi s)"
    using inv by (simp_all add: lr_inv_def)
  from lr_step_inv[OF st[unfolded lr_step_of_def]] obtain cH cO diff where
    c: "corrected_c1 (fst ?c) (smul mH (ones ?n)) (q_H a) (delta_phi s) = Inr cH"
       "corrected_c1 (snd ?c) (smul mO (ones ?n)) (q_O a) (delta_phi s) = Inr cO"
    and pH: "picard_update ?vH (muloc_H a) cH (log_rho_H_new s) (alpha s') (log_rho_H s)
        = (log_rho_H_new s', rho_H_new d, log_rho_H s', rho_H s')"
    and pO: "picard_update ?vO (muloc_O a) cO (log_rho_O_new s) (alpha s') (log_rho_O s)
        = (log_rho_O_new s', rho_O_new d, log_rho_O s', rho_O s')"
    and al: "alpha s' = schedule_update (sr2_schedule a) i (alpha s)"
    and alr: "alpha_restr s' = schedule_update (lr_schedule_restr a) i (alpha_restr s)"
    and pn: "delta_phi_new d =
        muls (map fneg
                (restructure_electrostatic_potential (lmft_utils a)
                   (snd (fourier_transform (lmft_utils a) (zbins a) (charge_density d) (kbins s)))
                   (kbins s') (zbins a) (kappa_inv a)))
          ?pre"
    and up: "update_delta_phi (delta d) (delta_restr d) (tolerance_restr a) (alpha_restr s')
         (delta_phi s) (delta_phi_new d) = Inr (delta_phi s')"
    by blast
  have lr: "length (rho_H s) = ?n" "length (rho_O s) = ?n"
    using i2 n by (simp_all add: sr2_inv_def)
  from E[OF lr phi] c
  have cH: "profile_ok ?vH (muloc_H a) cH" and cO: "profile_ok ?vO (muloc_O a) cO"
    by auto
  have a': "coeff_ok (alpha s')"
    unfolding al using sa i2 by (simp add: schedule_update_ok sr2_inv_def)
  have ar': "coeff_ok (alpha_restr s')"
    unfolding alr using sr ar by (simp add: schedule_update_ok)
  have lH: "log_ok ?vH (log_rho_H s)" and lO: "log_ok ?vO (log_rho_O s)"
    using i2 by (simp_all add: sr2_inv_def)
  have lenH: "length (log_rho_H_new s) = length (muloc_H a)" "length (log_rho_H s) = length (muloc_H a)"
    using i2 log_ok_length[OF lH] by (simp_all add: sr2_inv_def)
  have lenO: "length (log_rho_O_new s) = length (muloc_O a)" "length (log_rho_O s) = length (muloc_O a)"
    using i2 log_ok_length[OF lO] by (simp_all add: sr2_inv_def)
  have new: "potential_ok P ?n (delta_phi_new d)"
    unfolding pn by (rule R)
  from update_delta_phi_ok[OF phi new ar' up]
  have p': "potential_ok P ?n (delta_phi s')" .
  from picard_ok[OF lenH cH lH a' pH] picard_ok[OF lenO cO lO a' pO] show ?thesis
    using a' ar' p' by (simp add: lr_inv_def sr2_inv_def)
qed

lemma lr_body_success:
  "lr_body a upd upd_r vH vO pre muH muO i s = Inr (Return (Some z, Some rH, Some rO)) \<Longrightarrow>
     \<exists>s' d. lr_step a upd upd_r vH vO pre muH muO i s = Inr (s', d)
        \<and> z = zbins a \<and> rH = rho_H s' \<and> rO = rho_O s'"
  unfolding lr_body_def Let_def by (auto split: sum.splits if_splits)

lemma lr_reach_inv:
  assumes ok: "lr_inputs_ok a mH mO P"
    and run: "for_range (lr_body_of a mH mO) k 0 (lr_init a) = Inr (Next s)"
  shows "lr_inv a P s"
proof (rule for_range_Next_invariant[where P = "\<lambda>_. lr_inv a P", OF run])
  show "lr_inv a P (lr_init a)" by (rule lr_init_inv[OF ok])
next
  fix j t t'
  assume t: "lr_inv a P t" and b: "lr_body_of a mH mO (0 + int j) t = Inr (Next t')"
  from lr_body_Next[OF b[unfolded lr_body_of_def]] obtain s' d
    where st: "lr_step_of a mH mO (0 + int j) t = Inr (s', d)"
      and eq: "alpha t' = alpha s'" "alpha_restr t' = alpha_restr s'"
        "log_rho_H_new t' = log_rho_H_new s'" "log_rho_O_new t' = log_rho_O_new s'"
        "log_rho_H t' = log_rho_H s'" "log_rho_O t' = log_rho_O s'"
        "rho_H t' = rho_H s'" "rho_O t' = rho_O s'" "delta_phi t' = delta_phi s'"
    unfolding lr_step_of_def by blast
  from lr_step_pres[OF ok t st] have "lr_inv a P s'" by simp
  then show "lr_inv a P t'"
    by (simp add: lr_inv_def sr2_inv_def eq)
qed

lemma lr_densities:
  assumes ok: "lr_inputs_ok a mH mO P"
  shows "(\<forall>k s s' d. for_range (lr_body_of a mH mO) k 0 (lr_init a) = Inr (Next s)
            \<and> lr_step_of a mH mO (int k) s = Inr (s', d)
            \<longrightarrow> density_ok (validity (muloc_H a)) (rho_H s')
              \<and> density_ok (validity (muloc_O a)) (rho_O s'))
       \<and> (\<forall>z rH rO. minimise_LR_twotype a = Inr (Some z, Some rH, Some rO)
            \<longrightarrow> density_ok (validity (muloc_H a)) rH \<and> density_ok (validity (muloc_O a)) rO)"
proof (intro conjI allI impI)
  fix k s s' d
  assume h: "for_range (lr_body_of a mH mO) k 0 (lr_init a) = Inr (Next s)
            \<and> lr_step_of a mH mO (int k) s = Inr (s', d)"
  then show "density_ok (validity (muloc_H a)) (rho_H s')"
    and "density_ok (validity (muloc_O a)) (rho_O s')"
    using lr_step_pres[OF ok lr_reach_inv[OF ok]] by blast+
next
  fix z rH rO
  assume m: "minimise_LR_twotype a = Inr (Some z, Some rH, Some rO)"
  have mu: "mu_correction (phys a) (fabs (q_H a)) (kappa_inv a) (temp a) = Inr mH"
    "mu_correction (phys a) (fabs (q_O a)) (kappa_inv a) (temp a) = Inr mO"
    using ok by (simp_all add: lr_inputs_ok_def)
  from m have "for_range (lr_body_of a mH mO) (nat (maxiter a + 1)) 0 (lr_init a)
      = Inr (Return (Some z, Some rH, Some rO))"
    unfolding minimise_LR_twotype_def Let_def mu
    by (auto split: if_splits sum.splits control.splits)
  then obtain k t where run: "for_range (lr_body_of a mH mO) k 0 (lr_init a) = Inr (Next t)"
    and b: "lr_body_of a mH mO (0 + int k) t = Inr (Return (Some z, Some rH, Some rO))"
    unfolding for_range_Return_iff by blast
  from lr_body_success[OF b[unfolded lr_body_of_def]] obtain s' d where
    "lr_step_of a mH mO (0 + int k) t = Inr (s', d)" "rH = rho_H s'" "rO = rho_O s'"
    unfolding lr_step_of_def by blast
  then show "density_ok (validity (muloc_H a)) rH" and "density_ok (validity (muloc_O a)) rO"
    using lr_step_pres[OF ok lr_reach_inv[OF ok run]] by blast+
qed

lemma exp_minus_20: "exp (- 20 :: real) < 5 / 1000000"
proof -
  have "(2::real) \<le> exp 1" using exp_ge_add_one_self[of "1::real"] by simp
  then have "(2::real) ^ 20 \<le> exp 1 ^ 20" by (rule power_mono) simp
  also have "exp (1::real) ^ 20 = exp 20"
    using exp_of_nat_mult[of 20 "1::real"] by simp
  finally have "(200000::real) < exp 20" by simp
  then have "inverse (exp (20::real)) < inverse 200000"
    by (rule less_imp_inverse_less) simp
  then show ?thesis by (simp add: exp_minus)
qed

lemma ln2_upper: "ln (2::real) < 93 / 100"
proof -
  have "1 + 93 / 200 \<le> exp (93 / 200 :: real)" by (rule exp_ge_add_one_self)
  then have "(1 + 93 / 200) ^ 2 \<le> exp (93 / 200 :: real) ^ 2" by (rule power_mono) simp
  moreover have "exp (93 / 200 :: real) ^ 2 = exp (93 / 100)"
    using exp_of_nat_mult[of 2 "93 / 200 :: real"] by simp
  ultimately have "2 < exp (93 / 100 :: real)" by (simp add: power2_eq_square)
  then have "ln 2 < ln (exp (93 / 100 :: real))" by (subst ln_less_cancel_iff) simp_all
  then show ?thesis by simp
qed

lemma fexp_underflows: "a \<le> - 1000 \<Longrightarrow> fexp (Fin a) = Fin 0"
  using ln2_upper by (simp add: fexp.simps(1) exp_underflow_def)

lemma example_lr_damped_mu:
  "mu_correction (phys example_lr_damped) (fabs (q_H example_lr_damped))
     (kappa_inv example_lr_damped) (temp example_lr_damped) = Inr (Fin 0)"
  "mu_correction (phys example_lr_damped) (fabs (q_O example_lr_damped))
     (kappa_inv example_lr_damped) (temp example_lr_damped) = Inr (Fin 0)"
  by (simp_all add: example_lr_damped_def example_lr_def mu_correction_def Let_def)

lemma example_sr1_ok: "sr1_inputs_ok example_sr1"
  by (auto simp: sr1_inputs_ok_def example_sr1_def guess_ok_def coeff_ok_def schedule_ok_def
      sr1_schedule_def alpha_updates_default_onetype_def profile_ok_def log_ok_def
      target_log_def bounded_by_def fle_def validity_def length_Suc_conv)

lemma example_sr2_ok: "sr2_inputs_ok example_sr2"
  by (auto simp: sr2_inputs_ok_def example_sr2_def guess_ok_def coeff_ok_def schedule_ok_def
      sr2_schedule_def alpha_updates_default_twotype_def profile_ok_def log_ok_def
      target_log_def bounded_by_def fle_def validity_def length_Suc_conv)

lemma example_lr_damped_ok: "lr_inputs_ok example_lr_damped (Fin 0) (Fin 0) 1"
proof -
  let ?a = "example_lr_damped"
  have z: "zbins ?a = [Fin 0, Fin 1]" "muloc_H ?a = [Fin 0, Fin 0]" "muloc_O ?a = [Fin 0, Fin 0]"
    "q_H ?a = Fin 0" "q_O ?a = Fin 0"
    by (simp_all add: example_lr_damped_def example_lr_def)
  have s: "schedule_ok (sr2_schedule ?a)" "schedule_ok (lr_schedule_restr ?a)"
    by (simp_all add: example_lr_damped_def example_lr_def sr2_schedule_def
        lr_schedule_restr_def schedule_ok_def alpha_updates_default_twotype_def
        alpha_restr_updates_default_def coeff_ok_def)
  have g: "guess_ok (initial_guess ?a)" "coeff_ok (alpha_initial ?a)"
    by (simp_all add: example_lr_damped_def example_lr_def guess_ok_def coeff_ok_def
        bounded_by_def fle_def)
  have R: "potential_ok 1 (length (zbins ?a))
             (muls (map fneg (restructure_electrostatic_potential (lmft_utils ?a) nk k (zbins ?a)
                      (kappa_inv ?a)))
                (calculate_prefactor (lmft_utils ?a) (temp ?a) (dielectric ?a)))" for nk k
    by (simp add: example_lr_damped_def example_lr_def potential_ok_def muls_def
        bounded_by_def fle_def)
  have E: "\<exists>cH cO.
              corrected_c1 (fst (c1_twotype ?a rh ro)) (smul (Fin 0) (ones (length (zbins ?a))))
                (q_H ?a) phi = Inr cH
            \<and> corrected_c1 (snd (c1_twotype ?a rh ro)) (smul (Fin 0) (ones (length (zbins ?a))))
                (q_O ?a) phi = Inr cO
            \<and> profile_ok (validity (muloc_H ?a)) (muloc_H ?a) cH
            \<and> profile_ok (validity (muloc_O ?a)) (muloc_O ?a) cO"
    if h: "length rh = length (zbins ?a) \<and> length ro = length (zbins ?a)
           \<and> potential_ok 1 (length (zbins ?a)) phi" for rh ro phi
  proof -
    from h obtain r0 r1 where rh: "rh = [r0, r1]"
      by (auto simp: z length_Suc_conv numeral_2_eq_2)
    from h obtain o0 o1 where ro: "ro = [o0, o1]"
      by (auto simp: z length_Suc_conv numeral_2_eq_2)
    from h obtain p0 p1 where phi: "phi = [p0, p1]"
      by (auto simp: z potential_ok_def length_Suc_conv numeral_2_eq_2)
    from h obtain x0 x1 where x: "p0 = Fin x0" "p1 = Fin x1"
      unfolding phi potential_ok_def by (auto simp: bounded_by_Fin)
    have c: "c1_twotype ?a rh ro = ([Fin 0, Fin 0], [Fin 0, Fin 0])"
      by (simp add: example_lr_damped_def example_lr_def rh ro)
    have k: "corrected_c1 [Fin 0, Fin 0] (smul (Fin 0) (ones 2)) (Fin 0) phi = Inr [Fin 0, Fin 0]"
      by (simp add: corrected_c1_def np_bin_def smul_def ones_def numeral_2_eq_2 fsub_def phi x)
    have pr: "profile_ok (validity [Fin 0, Fin 0]) [Fin 0, Fin 0] [Fin 0, Fin 0]"
      by (simp add: profile_ok_def log_ok_def target_log_def validity_def bounded_by_def fle_def)
    show ?thesis
      using k pr by (simp add: c z numeral_2_eq_2)
  qed
  show ?thesis
    unfolding lr_inputs_ok_def example_lr_damped_mu
    using s g R E by (simp add: z)
qed

lemma example_sr2_step:
  "sr2_step_of example_sr2 0 (sr2_init example_sr2) =
     Inr (\<lparr>alpha = Fin (1 / 2), log_rho_H_new = [Fin 2], log_rho_O_new = [NInf],
            log_rho_H = [Fin 1], log_rho_O = [NInf], rho_H = [Fin (exp 1)], rho_O = [Fin 0]\<rparr>,
          \<lparr>delta = Fin (exp 2 - exp 1), rho_H_new = [Fin (exp 2)], rho_O_new = [Fin 0]\<rparr>)"
proof -
  have i: "sr2_init example_sr2 = \<lparr>alpha = Fin (1 / 2), log_rho_H_new = [Fin 0],
     log_rho_O_new = [Fin 0], log_rho_H = [Fin 0], log_rho_O = [NInf],
     rho_H = [Fin 1], rho_O = [Fin 1]\<rparr>"
    by (simp add: sr2_init_def example_sr2_def initial_log_rho_def validity_def zeros_def
        ones_def smul_def)
  have lt: "exp (1::real) < exp 2" by simp
  show ?thesis
    unfolding i using lt
    by (simp add: sr2_step_of_def sr2_step_def example_sr2_def sr2_schedule_def
        schedule_update_def alpha_updates_default_twotype_def validity_def picard_update_def
        vadd_def smul_def fsub_def Let_def max_abs_diff_def vsub_def py_max_def fgt_def)
qed

subsection \<open>C7: sign of the densities\<close>




end
